theory Spec2Isabelle
  imports Complex_Main "HOL-Library.AList"
begin

section \<open>Numbers\<close>

text \<open>
  A JavaScript number is an IEEE 754 double. The numbers that \<open>lerp\<close> reads and
  writes (the shader parameters of the presets and of the visualizer) are modelled as
  doubles: \<open>+\<close>, \<open>-\<close> and \<open>*\<close> are the exact operations followed by rounding to the
  nearest double, ties to even, with overflow to the infinities and with NaN. The two
  zeros are one value, as \<open>===\<close> has it. The other numbers (scroll progress, easing,
  the styles of the cards, \<open>morphFactor\<close> and the two rotations) are modelled over the
  reals: every operator of the source is the operator of the same name on
  \<^typ>\<open>real\<close>, \<open>Math.pow(x, 3)\<close> is the third power, \<open>Math.sin\<close>, \<open>Math.cos\<close> and
  \<open>Math.PI\<close> are \<^const>\<open>sin\<close>, \<open>cos\<close> and \<open>pi\<close>. A real that enters double
  arithmetic (a numeric literal, the eased progress) enters as the nearest double.
\<close>

subsection \<open>IEEE 754 doubles\<close>

text \<open>Rounding a real to the nearest integer, ties to the even one.\<close>

definition rne :: "real \<Rightarrow> int" where
  "rne y =
     (let f = \<lfloor>y\<rfloor>;
          r = y - of_int f
      in if r < 1 / 2 then f
         else if 1 / 2 < r then f + 1
         else if even f then f else f + 1)"

text \<open>
  The doubles around \<open>x\<close> are the multiples of \<open>2 powi quantum_exponent x\<close>: 53
  significant bits, and never finer than the subnormal spacing \<open>2 powi - 1074\<close>.
\<close>

definition quantum_exponent :: "real \<Rightarrow> int" where
  "quantum_exponent x = max \<lfloor>log 2 \<bar>x\<bar>\<rfloor> (- 1022) - 52"

text \<open>Rounding to nearest, ties to even, before the overflow check.\<close>

definition round_real :: "real \<Rightarrow> real" where
  "round_real x =
     (if x = 0 then 0
      else 2 powi quantum_exponent x * of_int (rne (x / 2 powi quantum_exponent x)))"

text \<open>The finite doubles: \<open>m * 2 powi e\<close> with fewer than 54 bits in \<open>m\<close>.\<close>

definition representable :: "real \<Rightarrow> bool" where
  "representable r \<longleftrightarrow>
     (\<exists>m e :: int. r = of_int m * 2 powi e \<and> \<bar>m\<bar> < 2 ^ 53 \<and> - 1074 \<le> e \<and> e \<le> 971)"

datatype double = Finite real | PosInfinity | NegInfinity | NaN

fun finite_double :: "double \<Rightarrow> bool" where
  "finite_double (Finite r) = representable r"
| "finite_double d = False"

text \<open>The double nearest to a real; a result of magnitude \<open>2 powi 1024\<close> overflows.\<close>

definition round_double :: "real \<Rightarrow> double" where
  "round_double x =
     (let y = round_real x
      in if 2 powi 1024 \<le> y then PosInfinity
         else if y \<le> - (2 powi 1024) then NegInfinity
         else Finite y)"

abbreviation num :: "real \<Rightarrow> double" where
  "num \<equiv> round_double"

fun dneg :: "double \<Rightarrow> double" where
  "dneg (Finite x) = Finite (- x)"
| "dneg PosInfinity = NegInfinity"
| "dneg NegInfinity = PosInfinity"
| "dneg NaN = NaN"

fun dadd :: "double \<Rightarrow> double \<Rightarrow> double" where
  "dadd (Finite x) (Finite y) = round_double (x + y)"
| "dadd NaN b = NaN"
| "dadd a NaN = NaN"
| "dadd PosInfinity NegInfinity = NaN"
| "dadd NegInfinity PosInfinity = NaN"
| "dadd PosInfinity b = PosInfinity"
| "dadd NegInfinity b = NegInfinity"
| "dadd a PosInfinity = PosInfinity"
| "dadd a NegInfinity = NegInfinity"

definition dsub :: "double \<Rightarrow> double \<Rightarrow> double" where
  "dsub a b = dadd a (dneg b)"

fun dmul :: "double \<Rightarrow> double \<Rightarrow> double" where
  "dmul (Finite x) (Finite y) = round_double (x * y)"
| "dmul NaN b = NaN"
| "dmul a NaN = NaN"
| "dmul PosInfinity (Finite y) =
     (if y = 0 then NaN else if 0 < y then PosInfinity else NegInfinity)"
| "dmul NegInfinity (Finite y) =
     (if y = 0 then NaN else if 0 < y then NegInfinity else PosInfinity)"
| "dmul (Finite x) PosInfinity =
     (if x = 0 then NaN else if 0 < x then PosInfinity else NegInfinity)"
| "dmul (Finite x) NegInfinity =
     (if x = 0 then NaN else if 0 < x then NegInfinity else PosInfinity)"
| "dmul PosInfinity PosInfinity = PosInfinity"
| "dmul NegInfinity NegInfinity = PosInfinity"
| "dmul PosInfinity NegInfinity = NegInfinity"
| "dmul NegInfinity PosInfinity = NegInfinity"

text \<open>\<open>a <= b\<close> on doubles: false whenever one side is NaN.\<close>

fun dle :: "double \<Rightarrow> double \<Rightarrow> bool" where
  "dle (Finite x) (Finite y) = (x \<le> y)"
| "dle NaN b = False"
| "dle a NaN = False"
| "dle NegInfinity b = True"
| "dle a PosInfinity = True"
| "dle a b = False"

subsection \<open>Easing functions and interpolation (MorphingTransitionSystem)\<close>

definition easeInOutCubic :: "real \<Rightarrow> real" where
  "easeInOutCubic t = (if t < 0.5 then 4 * t * t * t else 1 - (-2 * t + 2) ^ 3 / 2)"

definition easeOutBack :: "real \<Rightarrow> real" where
  "easeOutBack t =
     (let c1 = 1.70158;
          c3 = c1 + 1
      in 1 + c3 * (t - 1) ^ 3 + c1 * (t - 1) ^ 2)"

definition lerp :: "double \<Rightarrow> double \<Rightarrow> double \<Rightarrow> double" where
  "lerp a b t = dadd a (dmul (dsub b a) t)"

section \<open>The browser\<close>

text \<open>
  A DOM element is a handle. The document is given by the queries the code makes:
  \<open>document.getElementById\<close>, the \<open>id\<close> of an element,
  \<open>element.querySelectorAll\<close> and \<open>document.querySelectorAll\<close>; how the browser
  answers them is a parameter.
\<close>

type_synonym element = nat

record document =
  getElementById :: "string \<Rightarrow> element option"
  elementId :: "element \<Rightarrow> string"
  querySelectorAll :: "element \<Rightarrow> string \<Rightarrow> element list"
  documentQuerySelectorAll :: "string \<Rightarrow> element list"

text \<open>
  The variables of a \<open>gsap.set(target, vars)\<close> call: a property the object literal
  does not mention is \<open>None\<close>. The CSS filter is always \<open>blur(<r>px)\<close>.
\<close>

datatype css_filter = Blur real

record tween_vars =
  tw_x :: "real option"
  tw_y :: "real option"
  tw_rotation :: "real option"
  tw_scale :: "real option"
  tw_opacity :: "real option"
  tw_filter :: "css_filter option"

datatype log_entry = Log string | Info string | Warn string | Err string

text \<open>The shader parameters shared by a section preset and the visualizer's \<open>params\<close>.\<close>

record shader_fields =
  geometry :: double
  hue :: double
  intensity :: double
  chaos :: double
  gridDensity :: double

text \<open>A section preset (\<open>visualizerState\<close>) as \<open>registerSections\<close> writes it.\<close>

record visualizer_state = shader_fields +
  speed :: double

text \<open>
  The fields of \<open>visualizer.params\<close> that the morphing system reads or writes: the
  five interpolated ones, and \<open>morphFactor\<close> and the two rotations, which \<open>lerp\<close> does
  not touch.
\<close>

record visualizer_params = shader_fields +
  morphFactor :: real
  rot4dXW :: real
  rot4dYW :: real

text \<open>
  A \<open>WorkingQuantumVisualizer\<close>: \<open>gl\<close> is \<open>None\<close> when no WebGL context could be
  created, \<open>params\<close> is \<open>None\<close> when the object has no parameter object.
\<close>

datatype gl_context = WebGLContext

record visualizer =
  gl :: "gl_context option"
  params :: "visualizer_params option"

text \<open>
  An entry of the \<open>sectionConfigs\<close> map; \<open>sectionElement\<close> is its property
  \<open>section\<close>.
\<close>

record section_config =
  sectionElement :: element
  cards :: "element list"
  layout :: string
  cardCount :: nat
  visualizerState :: visualizer_state
  cardSelector :: "string option"

text \<open>
  The \<open>config\<close> argument of \<open>registerSection\<close>: an object whose own properties are
  spread into the entry last (\<open>...config\<close>). \<open>None\<close> is a property the object does
  not have. The callers in this repository pass \<open>cardSelector\<close>, \<open>layout\<close> and
  \<open>visualizerState\<close>.
\<close>

record section_options =
  cfg_cardSelector :: "string option"
  cfg_layout :: "string option"
  cfg_visualizerState :: visualizer_state
  cfg_section :: "element option"
  cfg_cards :: "element list option"
  cfg_cardCount :: "nat option"

text \<open>
  A timeline made by \<open>gsap.timeline({scrollTrigger: ...})\<close> in
  \<open>createMorphTransition\<close>: the trigger's settings and the two configurations that
  its \<open>onEnter\<close> and \<open>onUpdate\<close> callbacks pass on.
\<close>

record morph_timeline =
  st_trigger :: element
  st_start :: string
  st_end :: string
  st_scrub :: nat
  st_markers :: bool
  st_fromConfig :: section_config
  st_toConfig :: section_config

text \<open>
  What the code does to the page and the libraries: the lines written to the
  console and through the \<open>Logger\<close>, the \<open>gsap.set\<close> calls in order, the timelines
  and text tweens created, the render callbacks handed to
  \<open>requestAnimationFrame\<close>, and the events dispatched on \<open>window\<close>.
\<close>

record browser =
  console :: "log_entry list"
  logger :: "log_entry list"
  gsap_sets :: "(element \<times> tween_vars) list"
  timelines :: "morph_timeline list"
  text_tweens :: "element list"
  animation_frames :: nat
  dispatched :: "string list"

definition console_log :: "string \<Rightarrow> browser \<Rightarrow> browser" where
  "console_log msg br = br\<lparr>console := console br @ [Log msg]\<rparr>"

definition console_warn :: "string \<Rightarrow> browser \<Rightarrow> browser" where
  "console_warn msg br = br\<lparr>console := console br @ [Warn msg]\<rparr>"

definition console_error :: "string \<Rightarrow> browser \<Rightarrow> browser" where
  "console_error msg br = br\<lparr>console := console br @ [Err msg]\<rparr>"

definition gsap_set :: "element \<Rightarrow> tween_vars \<Rightarrow> browser \<Rightarrow> browser" where
  "gsap_set target vars br = br\<lparr>gsap_sets := gsap_sets br @ [(target, vars)]\<rparr>"

text \<open>The decimal numeral of a length, as a template string prints it.\<close>

definition digit_char :: "nat \<Rightarrow> char" where
  "digit_char d = ''0123456789'' ! d"

fun string_of_nat :: "nat \<Rightarrow> string" where
  "string_of_nat n =
     (let last_digit = [digit_char (n mod 10)]
      in if n < 10 then last_digit else string_of_nat (n div 10) @ last_digit)"

section \<open>MorphingTransitionSystem\<close>

text \<open>
  The object's own fields. \<open>gsap\<close> and \<open>ScrollTrigger\<close> are the libraries; their
  effects are recorded in the \<^typ>\<open>browser\<close>. Non-ASCII characters of the log
  lines are left out.
\<close>

record morphing_system =
  visualizer :: "visualizer option"
  sectionConfigs :: "(string \<times> section_config) list"

definition new_MorphingTransitionSystem ::
  "visualizer option \<Rightarrow> browser \<Rightarrow> morphing_system \<times> browser" where
  "new_MorphingTransitionSystem v br =
     (\<lparr>visualizer = v, sectionConfigs = []\<rparr>,
      console_log ''MorphingTransitionSystem initialized'' br)"

text \<open>
  \<open>a || b\<close> on an optional string: a missing property and the empty string are falsy.
\<close>

definition or_else :: "string option \<Rightarrow> string \<Rightarrow> string" where
  "or_else a b = (case a of None \<Rightarrow> b | Some s \<Rightarrow> if s = [] then b else s)"

text \<open>
  \<open>{...entry, ...config}\<close>: every own property of \<open>config\<close> replaces the property of
  the same name.
\<close>

definition spread_config :: "section_options \<Rightarrow> section_config \<Rightarrow> section_config" where
  "spread_config config entry =
     \<lparr>sectionElement = (case cfg_section config of None \<Rightarrow> sectionElement entry | Some s \<Rightarrow> s),
      cards = (case cfg_cards config of None \<Rightarrow> cards entry | Some cs \<Rightarrow> cs),
      layout = (case cfg_layout config of None \<Rightarrow> layout entry | Some l \<Rightarrow> l),
      cardCount = (case cfg_cardCount config of None \<Rightarrow> cardCount entry | Some n \<Rightarrow> n),
      visualizerState = cfg_visualizerState config,
      cardSelector = cfg_cardSelector config\<rparr>"

definition registerSection ::
  "document \<Rightarrow> string \<Rightarrow> section_options \<Rightarrow> morphing_system \<times> browser
   \<Rightarrow> morphing_system \<times> browser" where
  "registerSection doc sectionId config = (\<lambda>(sys, br).
     case getElementById doc sectionId of
       None \<Rightarrow> (sys, console_warn (''Section '' @ sectionId @ '' not found'') br)
     | Some sec \<Rightarrow>
         let cs = querySelectorAll doc sec
                    (or_else (cfg_cardSelector config) ''.signal-card, .card, .capability-card'');
             entry = spread_config config
                       \<lparr>sectionElement = sec,
                        cards = cs,
                        layout = or_else (cfg_layout config) ''grid'',
                        cardCount = length cs,
                        visualizerState = cfg_visualizerState config,
                        cardSelector = None\<rparr>
         in (sys\<lparr>sectionConfigs := AList.update sectionId entry (sectionConfigs sys)\<rparr>,
             console_log (''Registered section: '' @ sectionId @ '' with ''
                          @ string_of_nat (length cs) @ '' cards'') br))"

definition createMorphTransition ::
  "string \<Rightarrow> string \<Rightarrow> morphing_system \<times> browser \<Rightarrow> morphing_system \<times> browser" where
  "createMorphTransition fromSectionId toSectionId = (\<lambda>(sys, br).
     case (map_of (sectionConfigs sys) fromSectionId, map_of (sectionConfigs sys) toSectionId) of
       (Some fromConfig, Some toConfig) \<Rightarrow>
         (sys,
          console_log (''Morph transition: '' @ fromSectionId @ '' -> '' @ toSectionId)
            (br\<lparr>timelines := timelines br @
                 [\<lparr>st_trigger = sectionElement toConfig,
                   st_start = ''top bottom'',
                   st_end = ''top center'',
                   st_scrub = 1,
                   st_markers = False,
                   st_fromConfig = fromConfig,
                   st_toConfig = toConfig\<rparr>]\<rparr>))
     | _ \<Rightarrow> (sys, br))"

text \<open>The \<open>for\<close> loop of \<open>setupMorphingTransitions\<close>, from index \<open>i\<close> on.\<close>

function setupMorphingTransitions_loop ::
  "string list \<Rightarrow> int \<Rightarrow> morphing_system \<times> browser \<Rightarrow> morphing_system \<times> browser" where
  "setupMorphingTransitions_loop sections i s =
     (if i < int (length sections) - 1
      then let currentSectionId = sections ! nat i;
               nextSectionId = sections ! nat (i + 1)
           in setupMorphingTransitions_loop sections (i + 1)
                (createMorphTransition currentSectionId nextSectionId s)
      else s)"
  by pat_completeness auto
termination
  by (relation "measure (\<lambda>(sections, i, s). nat (int (length sections) - 1 - i))") auto

declare setupMorphingTransitions_loop.simps [simp del]

definition setupMorphingTransitions ::
  "morphing_system \<times> browser \<Rightarrow> morphing_system \<times> browser" where
  "setupMorphingTransitions s =
     (let sections = map fst (sectionConfigs (fst s));
          (sys, br) = setupMorphingTransitions_loop sections 0 s
      in (sys, console_log ''Morphing transitions configured'' br))"

subsection \<open>Transition handlers\<close>

definition onTransitionStart ::
  "document \<Rightarrow> section_config \<Rightarrow> section_config \<Rightarrow> morphing_system \<times> browser
   \<Rightarrow> morphing_system \<times> browser" where
  "onTransitionStart doc fromConfig toConfig = (\<lambda>(sys, br).
     (sys,
      fold (\<lambda>cardEl. gsap_set cardEl
              \<lparr>tw_x = None, tw_y = None, tw_rotation = None,
               tw_scale = Some 0.8, tw_opacity = Some 0, tw_filter = Some (Blur 8)\<rparr>)
        (cards toConfig)
        (console_log (''Starting morph: '' @ elementId doc (sectionElement fromConfig)
                      @ '' -> '' @ elementId doc (sectionElement toConfig)) br)))"

text \<open>
  The callback of \<open>cards.forEach\<close> in \<open>disassembleCards\<close>, for the card at index
  \<open>i\<close> of \<open>n = cards.length\<close> cards; \<open>random i\<close> is the value \<open>Math.random()\<close>
  returns in that callback.
\<close>

definition disassembleCard :: "(nat \<Rightarrow> real) \<Rightarrow> nat \<Rightarrow> nat \<Rightarrow> real \<Rightarrow> tween_vars" where
  "disassembleCard random n i progress =
     (let delay = real i * 0.1;
          adjustedProgress = max 0 (min 1 (progress - delay));
          angle = (real i / real n) * pi * 2;
          distance = adjustedProgress * 200;
          x = cos angle * distance;
          y = sin angle * distance
      in \<lparr>tw_x = Some x,
          tw_y = Some y,
          tw_rotation = Some (adjustedProgress * (random i - 0.5) * 45),
          tw_scale = Some (1 - adjustedProgress * 0.5),
          tw_opacity = Some (1 - adjustedProgress),
          tw_filter = Some (Blur (adjustedProgress * 12))\<rparr>)"

definition disassembleCards ::
  "(nat \<Rightarrow> real) \<Rightarrow> element list \<Rightarrow> real \<Rightarrow> morphing_system \<times> browser
   \<Rightarrow> morphing_system \<times> browser" where
  "disassembleCards random cs progress = (\<lambda>(sys, br).
     (sys,
      fold (\<lambda>(i, cardEl). gsap_set cardEl (disassembleCard random (length cs) i progress))
        (enumerate 0 cs) br))"

definition morphVisualizer ::
  "visualizer_state \<Rightarrow> visualizer_state \<Rightarrow> real \<Rightarrow> morphing_system \<times> browser
   \<Rightarrow> morphing_system \<times> browser" where
  "morphVisualizer fromState toState progress = (\<lambda>(sys, br).
     case visualizer sys of
       None \<Rightarrow> (sys, br)
     | Some v \<Rightarrow>
         (case params v of
            None \<Rightarrow> (sys, br)
          | Some ps \<Rightarrow>
              let ease = easeInOutCubic progress;
                  ps' = ps\<lparr>geometry := lerp (geometry fromState) (geometry toState) (num ease),
                          hue := lerp (hue fromState) (hue toState) (num ease),
                          intensity := lerp (intensity fromState) (intensity toState) (num ease),
                          chaos := lerp (chaos fromState) (chaos toState) (num ease),
                          gridDensity := lerp (gridDensity fromState) (gridDensity toState) (num ease),
                          morphFactor := sin (ease * pi),
                          rot4dXW := rot4dXW ps + 0.002 * ease,
                          rot4dYW := rot4dYW ps + 0.0015 * ease\<rparr>
              in (sys\<lparr>visualizer := Some (v\<lparr>params := Some ps'\<rparr>)\<rparr>, br)))"

text \<open>The callback of \<open>cards.forEach\<close> in \<open>assembleCards\<close>, for the card at index \<open>i\<close>.\<close>

definition assembleCard :: "document \<Rightarrow> element \<Rightarrow> nat \<Rightarrow> real \<Rightarrow> browser \<Rightarrow> browser" where
  "assembleCard doc cardEl i progress br =
     (let delay = real i * 0.15;
          adjustedProgress = max 0 (min 1 (progress - delay));
          easedProgress = easeOutBack adjustedProgress;
          br1 = gsap_set cardEl
                  \<lparr>tw_x = Some 0,
                   tw_y = Some 0,
                   tw_rotation = Some 0,
                   tw_scale = Some (0.8 + easedProgress * 0.2),
                   tw_opacity = Some easedProgress,
                   tw_filter = Some (Blur ((1 - easedProgress) * 8))\<rparr> br
      in if easedProgress > 0.5
         then let contentProgress = (easedProgress - 0.5) / 0.5;
                  cardContent = querySelectorAll doc cardEl ''h2, p, .signal-metadata''
              in fold (\<lambda>el. gsap_set el
                         \<lparr>tw_x = None,
                          tw_y = Some ((1 - contentProgress) * 20),
                          tw_rotation = None,
                          tw_scale = None,
                          tw_opacity = Some contentProgress,
                          tw_filter = None\<rparr>)
                   cardContent br1
         else br1)"

definition assembleCards ::
  "document \<Rightarrow> element list \<Rightarrow> real \<Rightarrow> morphing_system \<times> browser
   \<Rightarrow> morphing_system \<times> browser" where
  "assembleCards doc cs progress = (\<lambda>(sys, br).
     (sys, fold (\<lambda>(i, cardEl). assembleCard doc cardEl i progress) (enumerate 0 cs) br))"

text \<open>
  \<open>onTransitionProgress\<close> makes up to three method calls, each behind its own
  \<open>if\<close>. The calls it makes are listed first, in source order, and then run.
\<close>

datatype handler_call =
    DisassembleCards "element list" real
  | MorphVisualizer visualizer_state visualizer_state real
  | AssembleCards "element list" real

definition transition_calls :: "section_config \<Rightarrow> section_config \<Rightarrow> real \<Rightarrow> handler_call list" where
  "transition_calls fromConfig toConfig progress =
     (let fromCards = cards fromConfig;
          toCards = cards toConfig
      in (if progress < 0.4
          then [DisassembleCards fromCards (progress / 0.4)] else [])
       @ (if progress \<ge> 0.3 \<and> progress \<le> 0.7
          then [MorphVisualizer (visualizerState fromConfig) (visualizerState toConfig)
                  ((progress - 0.3) / 0.4)] else [])
       @ (if progress \<ge> 0.6
          then [AssembleCards toCards ((progress - 0.6) / 0.4)] else []))"

fun run_call ::
  "document \<Rightarrow> (nat \<Rightarrow> real) \<Rightarrow> handler_call \<Rightarrow> morphing_system \<times> browser
   \<Rightarrow> morphing_system \<times> browser" where
  "run_call doc random (DisassembleCards cs p) s = disassembleCards random cs p s"
| "run_call doc random (MorphVisualizer fromState toState p) s = morphVisualizer fromState toState p s"
| "run_call doc random (AssembleCards cs p) s = assembleCards doc cs p s"

definition onTransitionProgress ::
  "document \<Rightarrow> (nat \<Rightarrow> real) \<Rightarrow> section_config \<Rightarrow> section_config \<Rightarrow> real
   \<Rightarrow> morphing_system \<times> browser \<Rightarrow> morphing_system \<times> browser" where
  "onTransitionProgress doc random fromConfig toConfig progress s =
     fold (run_call doc random) (transition_calls fromConfig toConfig progress) s"

definition setupTextScrollOff ::
  "document \<Rightarrow> morphing_system \<times> browser \<Rightarrow> morphing_system \<times> browser" where
  "setupTextScrollOff doc = (\<lambda>(sys, br).
     let textElements = documentQuerySelectorAll doc ''h1, h2.section-title, .hero-lede, .eyebrow''
     in (sys,
         console_log ''Text scroll-off animations configured''
           (br\<lparr>text_tweens := text_tweens br @ textElements\<rparr>)))"

section \<open>ClearSeasEnhancedApplication\<close>

text \<open>
  The repository has two versions of the application class. Both keep the
  visualizer and the \<open>isInitialized\<close> flag; the integrated one owns a
  \<open>MorphingTransitionSystem\<close>, the simplified one a \<open>DetailedScrollChoreographer\<close>.
\<close>

datatype js_error = Error string

datatype completion = Returned | Threw js_error

datatype choreographer = DetailedScrollChoreographer

record application_base =
  quantumVisualizer :: "visualizer option"
  isInitialized :: bool

record application = application_base +
  morphingSystem :: "morphing_system option"

record application_simplified = application_base +
  detailedScrollChoreographer :: "choreographer option"

definition logger_info :: "string \<Rightarrow> browser \<Rightarrow> browser" where
  "logger_info msg br = br\<lparr>logger := logger br @ [Info msg]\<rparr>"

definition logger_warn :: "string \<Rightarrow> browser \<Rightarrow> browser" where
  "logger_warn msg br = br\<lparr>logger := logger br @ [Warn msg]\<rparr>"

definition logger_error :: "string \<Rightarrow> js_error \<Rightarrow> browser \<Rightarrow> browser" where
  "logger_error msg e br =
     (case e of Error m \<Rightarrow> br\<lparr>logger := logger br @ [Err (msg @ '' '' @ m)]\<rparr>)"

definition new_ClearSeasEnhancedApplication :: "browser \<Rightarrow> application \<times> browser" where
  "new_ClearSeasEnhancedApplication br =
     (\<lparr>quantumVisualizer = None, isInitialized = False, morphingSystem = None\<rparr>,
      logger_info ''Clear Seas Solutions - Integrated Morphing System'' br)"

definition new_ClearSeasEnhancedApplication_simplified ::
  "browser \<Rightarrow> application_simplified \<times> browser" where
  "new_ClearSeasEnhancedApplication_simplified br =
     (\<lparr>quantumVisualizer = None, isInitialized = False, detailedScrollChoreographer = None\<rparr>,
      logger_info ''Clear Seas Solutions - Working Visualizer System'' br)"

text \<open>
  \<open>startRenderLoop\<close> hands \<open>render\<close> to \<open>requestAnimationFrame\<close> once; the frames
  after that are the browser's.
\<close>

definition startRenderLoop :: "browser \<Rightarrow> browser" where
  "startRenderLoop br = br\<lparr>animation_frames := animation_frames br + 1\<rparr>"

definition registerSections ::
  "document \<Rightarrow> morphing_system \<times> browser \<Rightarrow> morphing_system \<times> browser" where
  "registerSections doc s =
     (let s1 = registerSection doc ''hero''
                 \<lparr>cfg_cardSelector = Some ''.signal-card'',
                  cfg_layout = Some ''grid'',
                  cfg_visualizerState =
                    \<lparr>geometry = num 2, hue = num 180, intensity = num 0.6, chaos = num 0.1,
                     gridDensity = num 20, speed = num 0.8\<rparr>,
                  cfg_section = None, cfg_cards = None, cfg_cardCount = None\<rparr> s;
          s2 = registerSection doc ''capabilities''
                 \<lparr>cfg_cardSelector = Some ''.capability-card'',
                  cfg_layout = Some ''grid'',
                  cfg_visualizerState =
                    \<lparr>geometry = num 7, hue = num 280, intensity = num 0.7, chaos = num 0.2,
                     gridDensity = num 30, speed = num 1.0\<rparr>,
                  cfg_section = None, cfg_cards = None, cfg_cardCount = None\<rparr> s1;
          s3 = registerSection doc ''research''
                 \<lparr>cfg_cardSelector = Some ''.card'',
                  cfg_layout = Some ''stack'',
                  cfg_visualizerState =
                    \<lparr>geometry = num 5, hue = num 200, intensity = num 0.9, chaos = num 0.4,
                     gridDensity = num 45, speed = num 1.3\<rparr>,
                  cfg_section = None, cfg_cards = None, cfg_cardCount = None\<rparr> s2;
          (sys, br) = registerSection doc ''contact''
                 \<lparr>cfg_cardSelector = Some ''.contact-card'',
                  cfg_layout = Some ''flex'',
                  cfg_visualizerState =
                    \<lparr>geometry = num 0, hue = num 240, intensity = num 0.5, chaos = num 0.05,
                     gridDensity = num 12, speed = num 0.6\<rparr>,
                  cfg_section = None, cfg_cards = None, cfg_cardCount = None\<rparr> s3
      in (sys, logger_info ''Sections registered with morphing system'' br))"

text \<open>
  The \<open>try\<close> block of \<open>initialize\<close> (integrated version). \<open>newVisualizer\<close> is what
  \<open>new WorkingQuantumVisualizer(...)\<close> does in this browser: it throws, or returns
  the object. The result says whether the block ran to its end or threw, with the
  state as it then is.
\<close>

definition initialize_try ::
  "document \<Rightarrow> js_error + visualizer \<Rightarrow> application \<times> browser
   \<Rightarrow> completion \<times> application \<times> browser" where
  "initialize_try doc newVisualizer = (\<lambda>(app, br).
     let br1 = logger_info ''Creating WorkingQuantumVisualizer...'' br
     in case newVisualizer of
          Inl e \<Rightarrow> (Threw e, app, br1)
        | Inr v \<Rightarrow>
            let app1 = app\<lparr>quantumVisualizer := Some v\<rparr>
            in if gl v = None
               then (Threw (Error ''Failed to create WebGL context''), app1, br1)
               else
                 let br2 = logger_info ''WorkingQuantumVisualizer created with WebGL context'' br1;
                     br3 = startRenderLoop br2;
                     br4 = logger_info ''Render loop started'' br3;
                     br5 = logger_info ''Creating MorphingTransitionSystem...'' br4;
                     s6 = new_MorphingTransitionSystem (quantumVisualizer app1) br5;
                     s7 = registerSections doc s6;
                     s8 = setupMorphingTransitions s7;
                     (sys, br9) = setupTextScrollOff doc s8;
                     br10 = logger_info ''Integrated morphing system initialized'' br9;
                     app2 = app1\<lparr>morphingSystem := Some sys, isInitialized := True\<rparr>;
                     br11 = logger_info ''Application initialized successfully'' br10;
                     br12 = br11\<lparr>dispatched := dispatched br11 @ [''clearSeasEnhancedReady'']\<rparr>
                 in (Returned, app2, br12))"

definition initialize ::
  "document \<Rightarrow> js_error + visualizer \<Rightarrow> application \<times> browser
   \<Rightarrow> completion \<times> application \<times> browser" where
  "initialize doc newVisualizer = (\<lambda>(app, br).
     if isInitialized app
     then (Returned, app, logger_warn ''Already initialized'' br)
     else case initialize_try doc newVisualizer (app, br) of
            (Returned, app', br') \<Rightarrow> (Returned, app', br')
          | (Threw e, app', br') \<Rightarrow>
              (Returned, app',
               (case e of Error m \<Rightarrow> console_error m)
                 (logger_error ''Initialization failed:'' e br')))"

text \<open>
  The simplified version. \<open>newChoreographer\<close> is what
  \<open>new DetailedScrollChoreographer(...)\<close> does and \<open>choreographerInitialize\<close> what its
  \<open>initialize()\<close> does (\<open>None\<close>: it returns); the class is not part of the sources.
\<close>

definition initialize_simplified_try ::
  "js_error + visualizer \<Rightarrow> js_error + choreographer \<Rightarrow> (choreographer \<Rightarrow> js_error option)
   \<Rightarrow> application_simplified \<times> browser \<Rightarrow> completion \<times> application_simplified \<times> browser" where
  "initialize_simplified_try newVisualizer newChoreographer choreographerInitialize = (\<lambda>(app, br).
     let br1 = logger_info ''Creating WorkingQuantumVisualizer...'' br
     in case newVisualizer of
          Inl e \<Rightarrow> (Threw e, app, br1)
        | Inr v \<Rightarrow>
            (let app1 = app\<lparr>quantumVisualizer := Some v\<rparr>
             in if gl v = None
                then (Threw (Error ''Failed to create WebGL context''), app1, br1)
                else
                  (let br2 = logger_info ''WorkingQuantumVisualizer created with WebGL context'' br1;
                       br3 = startRenderLoop br2;
                       br4 = logger_info ''Render loop started'' br3;
                       br5 = logger_info ''Creating DetailedScrollChoreographer...'' br4
                   in (case newChoreographer of
                         Inl e \<Rightarrow> (Threw e, app1, br5)
                       | Inr ch \<Rightarrow>
                           (let app2 = app1\<lparr>detailedScrollChoreographer := Some ch\<rparr>
                            in (case choreographerInitialize ch of
                                  Some e \<Rightarrow> (Threw e, app2, br5)
                                | None \<Rightarrow>
                                    (let br6 = logger_info ''Scroll choreography initialized'' br5;
                                         app3 = app2\<lparr>isInitialized := True\<rparr>;
                                         br7 = logger_info
                                                 ''Application initialized successfully'' br6;
                                         br8 = br7\<lparr>dispatched :=
                                                 dispatched br7 @ [''clearSeasEnhancedReady'']\<rparr>
                                     in (Returned, app3, br8))))))))"

definition initialize_simplified ::
  "js_error + visualizer \<Rightarrow> js_error + choreographer \<Rightarrow> (choreographer \<Rightarrow> js_error option)
   \<Rightarrow> application_simplified \<times> browser \<Rightarrow> completion \<times> application_simplified \<times> browser" where
  "initialize_simplified newVisualizer newChoreographer choreographerInitialize = (\<lambda>(app, br).
     if isInitialized app
     then (Returned, app, logger_warn ''Already initialized'' br)
     else case initialize_simplified_try newVisualizer newChoreographer choreographerInitialize
                 (app, br) of
            (Returned, app', br') \<Rightarrow> (Returned, app', br')
          | (Threw e, app', br') \<Rightarrow>
              (Returned, app',
               (case e of Error m \<Rightarrow> console_error m)
                 (logger_error ''Initialization failed:'' e br')))"

section \<open>Vocabulary of the properties\<close>

text \<open>
  \<open>this.visualizer.params\<close>, or \<open>None\<close> when the guard of \<open>morphVisualizer\<close>
  (\<open>!this.visualizer || !this.visualizer.params\<close>) returns early.
\<close>

definition system_params :: "morphing_system \<Rightarrow> visualizer_params option" where
  "system_params sys = (case visualizer sys of None \<Rightarrow> None | Some v \<Rightarrow> params v)"

text \<open>
  The properties of \<open>params\<close> that \<open>morphVisualizer\<close> assigns, in source order, their
  values in a parameter object, and the property of the same name in a section
  preset (\<open>None\<close>: the presets have no such property).
\<close>

datatype param_name =
  Geometry | Hue | Intensity | Chaos | GridDensity | MorphFactor | Rot4dXW | Rot4dYW

definition written_params :: "param_name list" where
  "written_params = [Geometry, Hue, Intensity, Chaos, GridDensity, MorphFactor, Rot4dXW, Rot4dYW]"

fun param_value :: "visualizer_params \<Rightarrow> param_name \<Rightarrow> double" where
  "param_value ps Geometry = geometry ps"
| "param_value ps Hue = hue ps"
| "param_value ps Intensity = intensity ps"
| "param_value ps Chaos = chaos ps"
| "param_value ps GridDensity = gridDensity ps"
| "param_value ps MorphFactor = Finite (morphFactor ps)"
| "param_value ps Rot4dXW = Finite (rot4dXW ps)"
| "param_value ps Rot4dYW = Finite (rot4dYW ps)"

fun preset_value :: "visualizer_state \<Rightarrow> param_name \<Rightarrow> double option" where
  "preset_value st Geometry = Some (geometry st)"
| "preset_value st Hue = Some (hue st)"
| "preset_value st Intensity = Some (intensity st)"
| "preset_value st Chaos = Some (chaos st)"
| "preset_value st GridDensity = Some (gridDensity st)"
| "preset_value st MorphFactor = None"
| "preset_value st Rot4dXW = None"
| "preset_value st Rot4dYW = None"

text \<open>\<open>v\<close> lies between \<open>a\<close> and \<open>b\<close>, whichever of the two is the larger.\<close>

definition dbetween :: "double \<Rightarrow> double \<Rightarrow> double \<Rightarrow> bool" where
  "dbetween a v b \<longleftrightarrow> (dle a v \<and> dle v b) \<or> (dle b v \<and> dle v a)"

text \<open>
  Parameter \<open>k\<close> of \<open>ps\<close> lies between the values of \<open>k\<close> in the two presets.
\<close>

definition interpolates ::
  "visualizer_state \<Rightarrow> visualizer_state \<Rightarrow> visualizer_params \<Rightarrow> param_name \<Rightarrow> bool" where
  "interpolates fromState toState ps k =
     (case (preset_value fromState k, preset_value toState k) of
        (Some a, Some b) \<Rightarrow> dbetween a (param_value ps k) b
      | _ \<Rightarrow> False)"

text \<open>
  \<open>a\<close> and \<open>b\<close> are finite doubles, and neither \<open>b - a\<close> nor \<open>a + (b - a)\<close>
  overflows.
\<close>

definition lerp_defined :: "double \<Rightarrow> double \<Rightarrow> bool" where
  "lerp_defined a b \<longleftrightarrow>
     finite_double a \<and> finite_double b \<and> finite_double (dsub b a)
     \<and> finite_double (lerp a b (Finite 1))"

subsection \<open>A page for the examples\<close>

text \<open>
  A page with the sections \<open>hero\<close> (two signal cards, the first with a heading and
  a paragraph), \<open>capabilities\<close> (one card) and \<open>research\<close> (one card), no section
  \<open>contact\<close>, and one headline.
\<close>

definition example_page :: document where
  "example_page =
     \<lparr>getElementById = (\<lambda>i. if i = ''hero'' then Some 1
                             else if i = ''capabilities'' then Some 2
                             else if i = ''research'' then Some 3
                             else None),
      elementId = (\<lambda>e. if e = 1 then ''hero''
                        else if e = 2 then ''capabilities''
                        else if e = 3 then ''research''
                        else []),
      querySelectorAll = (\<lambda>e sel.
         if e = 1 \<and> sel = ''.signal-card'' then [10, 11]
         else if e = 2 \<and> sel = ''.capability-card'' then [20]
         else if e = 3 \<and> sel = ''.card'' then [30]
         else if e = 10 \<and> sel = ''h2, p, .signal-metadata'' then [101, 102]
         else []),
      documentQuerySelectorAll = (\<lambda>sel.
         if sel = ''h1, h2.section-title, .hero-lede, .eyebrow'' then [100] else [])\<rparr>"

definition fresh_browser :: browser where
  "fresh_browser =
     \<lparr>console = [], logger = [], gsap_sets = [], timelines = [], text_tweens = [],
      animation_frames = 0, dispatched = []\<rparr>"

text \<open>The four presets of \<open>registerSections\<close>.\<close>

definition hero_state :: visualizer_state where
  "hero_state =
     \<lparr>geometry = num 2, hue = num 180, intensity = num 0.6, chaos = num 0.1,
      gridDensity = num 20, speed = num 0.8\<rparr>"

definition capabilities_state :: visualizer_state where
  "capabilities_state =
     \<lparr>geometry = num 7, hue = num 280, intensity = num 0.7, chaos = num 0.2,
      gridDensity = num 30, speed = num 1.0\<rparr>"

definition research_state :: visualizer_state where
  "research_state =
     \<lparr>geometry = num 5, hue = num 200, intensity = num 0.9, chaos = num 0.4,
      gridDensity = num 45, speed = num 1.3\<rparr>"

definition contact_state :: visualizer_state where
  "contact_state =
     \<lparr>geometry = num 0, hue = num 240, intensity = num 0.5, chaos = num 0.05,
      gridDensity = num 12, speed = num 0.6\<rparr>"

definition zero_params :: visualizer_params where
  "zero_params =
     \<lparr>geometry = Finite 0, hue = Finite 0, intensity = Finite 0, chaos = Finite 0,
      gridDensity = Finite 0, morphFactor = 0, rot4dXW = 0, rot4dYW = 0\<rparr>"

definition working_visualizer :: visualizer where
  "working_visualizer = \<lparr>gl = Some WebGLContext, params = Some zero_params\<rparr>"

definition example_system :: morphing_system where
  "example_system = \<lparr>visualizer = Some working_visualizer, sectionConfigs = []\<rparr>"

definition hero_config :: section_config where
  "hero_config =
     \<lparr>sectionElement = 1, cards = [10, 11], layout = ''grid'', cardCount = 2,
      visualizerState = hero_state, cardSelector = Some ''.signal-card''\<rparr>"

definition capabilities_config :: section_config where
  "capabilities_config =
     \<lparr>sectionElement = 2, cards = [20], layout = ''grid'', cardCount = 1,
      visualizerState = capabilities_state, cardSelector = Some ''.capability-card''\<rparr>"

section \<open>Properties\<close>

subsection \<open>Rounding to the nearest double\<close>

lemma rne_of_int [simp]: "rne (of_int k) = k"
  by (simp add: rne_def)

lemma rne_floor_cases: "rne y = \<lfloor>y\<rfloor> \<or> rne y = \<lfloor>y\<rfloor> + 1"
  by (simp add: rne_def Let_def)

lemma rne_ge_int:
  assumes "of_int k \<le> y"
  shows "k \<le> rne y"
proof -
  have "k \<le> \<lfloor>y\<rfloor>"
    using assms by (simp add: le_floor_iff)
  then show ?thesis
    using rne_floor_cases[of y] by auto
qed

lemma rne_le_int:
  assumes "y \<le> of_int k"
  shows "rne y \<le> k"
proof (cases "y = of_int k")
  case True
  then show ?thesis by simp
next
  case False
  with assms have "y < of_int k" by simp
  then have "\<lfloor>y\<rfloor> < k"
    by (simp add: floor_less_iff)
  then show ?thesis
    using rne_floor_cases[of y] by auto
qed

lemma rne_mono:
  assumes "x \<le> y"
  shows "rne x \<le> rne y"
proof (cases "\<lfloor>x\<rfloor> = \<lfloor>y\<rfloor>")
  case True
  then show ?thesis
    using assms by (auto simp add: rne_def Let_def)
next
  case False
  then have "\<lfloor>x\<rfloor> < \<lfloor>y\<rfloor>"
    using assms floor_mono[of x y] by linarith
  then have "rne x \<le> \<lfloor>y\<rfloor>"
    using rne_floor_cases[of x] by auto
  also have "\<lfloor>y\<rfloor> \<le> rne y"
    using rne_floor_cases[of y] by auto
  finally show ?thesis .
qed

lemma rne_minus: "rne (- y) = - rne y"
proof (cases "y = of_int \<lfloor>y\<rfloor>")
  case True
  then obtain k :: int where "y = of_int k"
    by blast
  then have "rne y = k" "rne (- y) = - k"
    using rne_of_int[of k] rne_of_int[of "- k"] by simp_all
  then show ?thesis by simp
next
  case False
  have fl: "\<lfloor>- y\<rfloor> = - \<lfloor>y\<rfloor> - 1"
    using False by (simp add: floor_minus ceiling_altdef)
  have "rne (- y) = (let r = y - of_int \<lfloor>y\<rfloor>
                     in if 1 / 2 < r then - \<lfloor>y\<rfloor> - 1
                        else if r < 1 / 2 then - \<lfloor>y\<rfloor>
                        else if even (- \<lfloor>y\<rfloor> - 1) then - \<lfloor>y\<rfloor> - 1 else - \<lfloor>y\<rfloor>)"
    unfolding rne_def fl Let_def by (simp add: algebra_simps)
  also have "\<dots> = - rne y"
    unfolding rne_def Let_def by simp
  finally show ?thesis .
qed

lemma two_powr_int: "(2 :: real) powr real_of_int k = 2 powi k"
  by (rule powr_real_of_int') auto

lemma floor_log2_iff:
  assumes "x \<noteq> 0"
  shows "\<lfloor>log 2 \<bar>x\<bar>\<rfloor> = k \<longleftrightarrow> 2 powi k \<le> \<bar>x\<bar> \<and> \<bar>x\<bar> < 2 powi (k + 1)"
proof -
  have "0 < \<bar>x\<bar>" "(1 :: real) < 2"
    using assms by simp_all
  from floor_log_eq_powr_iff[OF this, of k] show ?thesis
    by (simp only: two_powr_int)
qed

lemma floor_log2_bounds:
  assumes "x \<noteq> 0"
  shows "2 powi \<lfloor>log 2 \<bar>x\<bar>\<rfloor> \<le> \<bar>x\<bar>" "\<bar>x\<bar> < 2 powi (\<lfloor>log 2 \<bar>x\<bar>\<rfloor> + 1)"
  using floor_log2_iff[OF assms, of "\<lfloor>log 2 \<bar>x\<bar>\<rfloor>"] by simp_all

lemma floor_log2_unique:
  assumes "2 powi k \<le> \<bar>x\<bar>" "\<bar>x\<bar> < 2 powi (k + 1)"
  shows "\<lfloor>log 2 \<bar>x\<bar>\<rfloor> = k"
proof -
  have "0 < \<bar>x\<bar>"
    using assms(1) zero_less_power_int[of "2 :: real" k] by linarith
  then have "x \<noteq> 0"
    by simp
  from floor_log2_iff[OF this, of k] assms show ?thesis
    by simp
qed

lemma quantum_exponent_ge: "- 1074 \<le> quantum_exponent x"
  by (simp add: quantum_exponent_def)

lemma quantum_exponent_upper:
  assumes "x \<noteq> 0"
  shows "\<bar>x\<bar> < 2 powi (quantum_exponent x + 53)"
proof -
  have "\<bar>x\<bar> < 2 powi (\<lfloor>log 2 \<bar>x\<bar>\<rfloor> + 1)"
    using assms by (rule floor_log2_bounds)
  also have "\<dots> \<le> 2 powi (quantum_exponent x + 53)"
    by (intro power_int_increasing) (simp_all add: quantum_exponent_def)
  finally show ?thesis .
qed

lemma quantum_exponent_lower:
  assumes "x \<noteq> 0" "- 1074 < quantum_exponent x"
  shows "2 powi (quantum_exponent x + 52) \<le> \<bar>x\<bar>"
proof -
  have "quantum_exponent x + 52 = \<lfloor>log 2 \<bar>x\<bar>\<rfloor>"
    using assms(2) by (simp add: quantum_exponent_def max_def split: if_splits)
  then show ?thesis
    using floor_log2_bounds(1)[OF assms(1)] by simp
qed

lemma quantum_exponent_unique:
  assumes "2 powi (e + 52) \<le> \<bar>x\<bar>" "\<bar>x\<bar> < 2 powi (e + 53)" "- 1074 \<le> e"
  shows "quantum_exponent x = e"
proof -
  have "\<lfloor>log 2 \<bar>x\<bar>\<rfloor> = e + 52"
    using assms(1,2) floor_log2_unique[of "e + 52" x] by (simp add: add.commute add.left_commute)
  then show ?thesis
    using assms(3) by (simp add: quantum_exponent_def)
qed

lemma quantum_exponent_mono:
  assumes "x \<noteq> 0" "\<bar>x\<bar> \<le> \<bar>y\<bar>"
  shows "quantum_exponent x \<le> quantum_exponent y"
proof -
  have "log 2 \<bar>x\<bar> \<le> log 2 \<bar>y\<bar>"
    using assms by simp
  then have "\<lfloor>log 2 \<bar>x\<bar>\<rfloor> \<le> \<lfloor>log 2 \<bar>y\<bar>\<rfloor>"
    by (rule floor_mono)
  then show ?thesis
    by (simp add: quantum_exponent_def)
qed

lemma quantum_exponent_minus [simp]: "quantum_exponent (- x) = quantum_exponent x"
  by (simp add: quantum_exponent_def)

lemma round_real_minus: "round_real (- x) = - round_real x"
  by (simp add: round_real_def rne_minus)

lemma round_real_zero [simp]: "round_real 0 = 0"
  by (simp add: round_real_def)

lemma two_powi_add: "(2 :: real) powi (m + n) = 2 powi m * 2 powi n"
  by (rule power_int_add) simp

lemma two_powi_pos [simp]: "0 < (2 :: real) powi k"
  by (rule zero_less_power_int) simp

lemma two_powi_nat: "(2 :: real) powi (int n) = 2 ^ n"
  by (simp add: power_int_def)

lemma round_real_pos_nonneg:
  assumes "0 < x"
  shows "0 \<le> round_real x"
proof -
  have "of_int 0 \<le> x / 2 powi quantum_exponent x"
    using assms by simp
  then have "0 \<le> rne (x / 2 powi quantum_exponent x)"
    by (rule rne_ge_int)
  then show ?thesis
    using assms by (simp add: round_real_def)
qed

lemma round_real_pos_upper:
  assumes "0 < x"
  shows "round_real x \<le> 2 powi (quantum_exponent x + 53)"
proof -
  define E where "E = quantum_exponent x"
  have "x < 2 powi (E + 53)"
    using quantum_exponent_upper[of x] assms by (simp add: E_def)
  then have "x / 2 powi E < 2 powi 53"
    by (simp add: two_powi_add pos_divide_less_eq mult.commute)
  then have "x / 2 powi E \<le> of_int (2 ^ 53)"
    by simp
  then have "rne (x / 2 powi E) \<le> 2 ^ 53"
    by (rule rne_le_int)
  then have "real_of_int (rne (x / 2 powi E)) \<le> 2 powi 53"
    by (metis numeral_power_eq_of_int_cancel_iff of_int_le_iff of_int_numeral of_int_power power_int_numeral)
  then have "(2 :: real) powi E * of_int (rne (x / 2 powi E)) \<le> 2 powi E * 2 powi 53"
    by (intro mult_left_mono) simp_all
  then show ?thesis
    using assms by (simp add: round_real_def E_def two_powi_add)
qed

lemma round_real_pos_lower:
  assumes "0 < x" "- 1074 < quantum_exponent x"
  shows "2 powi (quantum_exponent x + 52) \<le> round_real x"
proof -
  define E where "E = quantum_exponent x"
  have "2 powi (E + 52) \<le> x"
    using quantum_exponent_lower[of x] assms by (simp add: E_def)
  then have "2 powi 52 \<le> x / 2 powi E"
    by (simp add: two_powi_add pos_le_divide_eq mult.commute)
  then have "of_int (2 ^ 52) \<le> x / 2 powi E"
    by simp
  then have "2 ^ 52 \<le> rne (x / 2 powi E)"
    by (rule rne_ge_int)
  then have "2 powi 52 \<le> real_of_int (rne (x / 2 powi E))"
    by (metis numeral_power_eq_of_int_cancel_iff of_int_le_iff of_int_numeral of_int_power power_int_numeral)
  then have "(2 :: real) powi E * 2 powi 52 \<le> 2 powi E * of_int (rne (x / 2 powi E))"
    by (intro mult_left_mono) simp_all
  then show ?thesis
    using assms by (simp add: round_real_def E_def two_powi_add)
qed

lemma two_powi_less_imp: "(2 :: real) powi a < 2 powi b \<Longrightarrow> a < b"
  using power_int_increasing[of b a "2 :: real"] by (cases "a < b") auto

lemma two_powi_le_imp: "(2 :: real) powi a \<le> 2 powi b \<Longrightarrow> a \<le> b"
  using power_int_strict_increasing[of b a "2 :: real"] by (cases "a \<le> b") auto

lemma round_real_mono_pos:
  assumes "0 < x" "x \<le> y"
  shows "round_real x \<le> round_real y"
proof -
  have ypos: "0 < y"
    using assms by simp
  have le: "quantum_exponent x \<le> quantum_exponent y"
    using assms by (intro quantum_exponent_mono) simp_all
  show ?thesis
  proof (cases "quantum_exponent x = quantum_exponent y")
    case True
    define q :: real where "q = 2 powi quantum_exponent y"
    have "0 < q"
      by (simp add: q_def)
    then have "x / q \<le> y / q"
      using assms by (simp add: divide_right_mono)
    then have "rne (x / q) \<le> rne (y / q)"
      by (rule rne_mono)
    then have "q * of_int (rne (x / q)) \<le> q * of_int (rne (y / q))"
      using \<open>0 < q\<close> by simp
    then show ?thesis
      using assms ypos True by (simp add: round_real_def q_def)
  next
    case False
    with le have lt: "quantum_exponent x < quantum_exponent y"
      by simp
    then have sub: "- 1074 < quantum_exponent y"
      using quantum_exponent_ge[of x] by simp
    have "round_real x \<le> 2 powi (quantum_exponent x + 53)"
      using assms(1) by (rule round_real_pos_upper)
    also have "\<dots> \<le> 2 powi (quantum_exponent y + 52)"
      using lt by (intro power_int_increasing) simp_all
    also have "\<dots> \<le> round_real y"
      using ypos sub by (rule round_real_pos_lower)
    finally show ?thesis .
  qed
qed

lemma round_real_neg_nonpos:
  assumes "x < 0"
  shows "round_real x \<le> 0"
  using round_real_pos_nonneg[of "- x"] assms by (simp add: round_real_minus)

lemma round_real_mono:
  assumes "x \<le> y"
  shows "round_real x \<le> round_real y"
proof -
  consider "0 < x" | "x = 0" "y = 0" | "x = 0" "0 < y" | "x < 0" "0 < y" | "x < 0" "y = 0"
    | "x < 0" "y < 0"
    using assms by linarith
  then show ?thesis
  proof cases
    case 1
    then show ?thesis using assms by (rule round_real_mono_pos)
  next
    case 2
    then show ?thesis by simp
  next
    case 3
    then show ?thesis using round_real_pos_nonneg[of y] by simp
  next
    case 4
    then show ?thesis
      using round_real_pos_nonneg[of y] round_real_neg_nonpos[of x] by simp
  next
    case 5
    then show ?thesis using round_real_neg_nonpos[of x] by simp
  next
    case 6
    then have "round_real (- y) \<le> round_real (- x)"
      using assms by (intro round_real_mono_pos) simp_all
    then show ?thesis
      by (simp add: round_real_minus)
  qed
qed

lemma round_real_grid:
  assumes "r = of_int m * 2 powi e" "\<bar>m\<bar> < 2 ^ 53" "- 1074 \<le> e"
  shows "round_real r = r"
proof (cases "r = 0")
  case True
  then show ?thesis by simp
next
  case False
  define E where "E = quantum_exponent r"
  have "E \<le> e"
  proof (rule ccontr)
    assume "\<not> E \<le> e"
    then have "e < E" by simp
    then have "- 1074 < E"
      using assms(3) by simp
    then have "2 powi (E + 52) \<le> \<bar>r\<bar>"
      using quantum_exponent_lower[of r] False by (simp add: E_def)
    also have "\<bar>r\<bar> = \<bar>of_int m\<bar> * 2 powi e"
      by (simp add: assms(1) abs_mult)
    also have "\<dots> < 2 ^ 53 * 2 powi e"
    proof -
      have "\<bar>real_of_int m\<bar> < 2 ^ 53"
        using assms(2) by (metis of_int_abs of_int_less_numeral_power_cancel_iff)
      then show ?thesis
        by simp
    qed
    also have "\<dots> = 2 powi (e + 53)"
      by (simp add: two_powi_add)
    finally have "E + 52 < e + 53"
      by (rule two_powi_less_imp)
    with \<open>e < E\<close> show False
      by simp
  qed
  then obtain n where n: "e - E = int n"
    using zero_le_imp_eq_int[of "e - E"] by auto
  have "(2 :: real) powi e = 2 powi E * 2 powi (e - E)"
    using two_powi_add[of E "e - E"] by simp
  then have split: "(2 :: real) powi e = 2 powi E * 2 ^ n"
    by (simp add: n two_powi_nat)
  have "r / 2 powi E = of_int (m * 2 ^ n)"
    by (simp add: assms(1) split)
  then have "rne (r / 2 powi E) = m * 2 ^ n"
    by (simp only: rne_of_int)
  then have "round_real r = 2 powi E * of_int (m * 2 ^ n)"
    using False by (simp add: round_real_def E_def)
  also have "\<dots> = r"
    by (simp add: assms(1) split)
  finally show ?thesis .
qed

lemma round_real_representable:
  assumes "representable r"
  shows "round_real r = r"
  using assms round_real_grid unfolding representable_def by blast

lemma representable_minus: "representable (- r) \<longleftrightarrow> representable r"
proof -
  have "representable (- r)" if "representable r" for r
  proof -
    from that obtain m e :: int where "r = of_int m * 2 powi e" "\<bar>m\<bar> < 2 ^ 53"
      "- 1074 \<le> e" "e \<le> 971"
      unfolding representable_def by blast
    then have "- r = of_int (- m) * 2 powi e \<and> \<bar>- m\<bar> < 2 ^ 53 \<and> - 1074 \<le> e \<and> e \<le> 971"
      by simp
    then show ?thesis
      unfolding representable_def by blast
  qed
  from this[of r] this[of "- r"] show ?thesis
    by auto
qed

lemma representable_zero [simp]: "representable 0"
  unfolding representable_def by (intro exI[of _ 0]) simp

lemma rne_scaled_bounds:
  assumes "0 < x"
  shows "0 \<le> rne (x / 2 powi quantum_exponent x)"
    and "rne (x / 2 powi quantum_exponent x) \<le> 2 ^ 53"
    and "- 1074 < quantum_exponent x \<Longrightarrow> 2 ^ 52 \<le> rne (x / 2 powi quantum_exponent x)"
proof -
  define E where "E = quantum_exponent x"
  have "of_int 0 \<le> x / 2 powi E"
    using assms by simp
  then show "0 \<le> rne (x / 2 powi quantum_exponent x)"
    unfolding E_def by (rule rne_ge_int)
  have "x < 2 powi (E + 53)"
    using quantum_exponent_upper[of x] assms by (simp add: E_def)
  then have "x / 2 powi E < 2 powi 53"
    by (simp add: two_powi_add pos_divide_less_eq mult.commute)
  then have "x / 2 powi E \<le> of_int (2 ^ 53)"
    by simp
  then show "rne (x / 2 powi quantum_exponent x) \<le> 2 ^ 53"
    unfolding E_def by (rule rne_le_int)
  assume "- 1074 < quantum_exponent x"
  then have "2 powi (E + 52) \<le> x"
    using quantum_exponent_lower[of x] assms by (simp add: E_def)
  then have "2 powi 52 \<le> x / 2 powi E"
    by (simp add: two_powi_add pos_le_divide_eq mult.commute)
  then have "of_int (2 ^ 52) \<le> x / 2 powi E"
    by simp
  then show "2 ^ 52 \<le> rne (x / 2 powi quantum_exponent x)"
    unfolding E_def by (rule rne_ge_int)
qed

lemma representableI:
  assumes "r = of_int m * 2 powi e" "\<bar>m\<bar> < 2 ^ 53" "- 1074 \<le> e" "e \<le> 971"
  shows "representable r"
  unfolding representable_def using assms by blast

lemma of_int_two_power: "real_of_int (2 ^ n) = 2 powi int n"
  by (simp add: two_powi_nat)

lemma round_real_pos_representable:
  assumes "0 < x" "round_real x < 2 powi 1024"
  shows "representable (round_real x)"
proof -
  define E where "E = quantum_exponent x"
  define k where "k = rne (x / 2 powi E)"
  have y: "round_real x = 2 powi E * of_int k"
    using assms(1) by (simp add: round_real_def E_def k_def)
  have k0: "0 \<le> k" and k53: "k \<le> 2 ^ 53"
    using rne_scaled_bounds(1,2)[OF assms(1)] by (simp_all add: k_def E_def)
  have E0: "- 1074 \<le> E"
    by (simp add: E_def quantum_exponent_ge)
  show ?thesis
  proof (cases "k = 2 ^ 53")
    case True
    have "real_of_int k = 2 powi 53"
      unfolding True using of_int_two_power[of 53] by simp
    then have y2: "round_real x = 2 powi (E + 53)"
      by (simp add: y two_powi_add)
    then have "(2 :: real) powi (E + 53) < 2 powi 1024"
      using assms(2) by simp
    then have "E + 53 < 1024"
      by (rule two_powi_less_imp)
    then have e1: "E + 1 \<le> 971"
      by simp
    have e0: "- 1074 \<le> E + 1"
      using E0 by simp
    have "(2 :: real) powi (E + 53) = 2 powi 52 * 2 powi (E + 1)"
      using two_powi_add[of 52 "E + 1"] by (simp add: add.commute add.left_commute)
    also have "(2 :: real) powi 52 = of_int (2 ^ 52)"
      using of_int_two_power[of 52] by simp
    finally have form: "round_real x = of_int (2 ^ 52) * 2 powi (E + 1)"
      by (simp only: y2)
    have m: "\<bar>2 ^ 52 :: int\<bar> < 2 ^ 53"
      by simp
    from form m e0 e1 show ?thesis
      by (rule representableI)
  next
    case False
    with k53 k0 have klt: "\<bar>k\<bar> < 2 ^ 53"
      by simp
    have "E \<le> 971"
    proof (rule ccontr)
      assume "\<not> E \<le> 971"
      then have big: "972 \<le> E" by simp
      then have "- 1074 < quantum_exponent x"
        by (simp add: E_def)
      then have "2 ^ 52 \<le> k"
        using rne_scaled_bounds(3)[OF assms(1)] by (simp add: k_def E_def)
      then have "real_of_int (2 ^ 52) \<le> of_int k"
        by (simp only: of_int_le_iff)
      then have "(2 :: real) powi 52 \<le> of_int k"
        using of_int_two_power[of 52] by simp
      then have "(2 :: real) powi E * 2 powi 52 \<le> 2 powi E * of_int k"
        by (intro mult_left_mono) simp_all
      then have "(2 :: real) powi (E + 52) \<le> round_real x"
        by (simp only: y two_powi_add)
      moreover have "(2 :: real) powi 1024 \<le> 2 powi (E + 52)"
        using big by (intro power_int_increasing) simp_all
      ultimately show False
        using assms(2) by linarith
    qed
    with E0 klt y show ?thesis
      by (intro representableI[of _ k E]) (simp_all add: mult.commute)
  qed
qed

lemma round_real_representable_result:
  assumes "\<bar>round_real x\<bar> < 2 powi 1024"
  shows "representable (round_real x)"
proof -
  consider "0 < x" | "x = 0" | "x < 0"
    by linarith
  then show ?thesis
  proof cases
    case 1
    then show ?thesis
      using assms by (intro round_real_pos_representable) simp_all
  next
    case 2
    then show ?thesis by simp
  next
    case 3
    then have "representable (round_real (- x))"
      using assms by (intro round_real_pos_representable) (simp_all add: round_real_minus)
    then show ?thesis
      by (simp add: round_real_minus representable_minus)
  qed
qed

lemma round_real_exact:
  assumes "2 powi (e + 52) \<le> \<bar>x\<bar>" "\<bar>x\<bar> < 2 powi (e + 53)" "- 1074 \<le> e"
  shows "round_real x = 2 powi e * of_int (rne (x / 2 powi e))"
proof -
  have "0 < \<bar>x\<bar>"
    using assms(1) two_powi_pos[of "e + 52"] by linarith
  then have "x \<noteq> 0"
    by simp
  then show ?thesis
    using quantum_exponent_unique[OF assms] by (simp add: round_real_def)
qed

lemma round_double_finite:
  assumes "\<bar>round_real x\<bar> < 2 powi 1024"
  shows "round_double x = Finite (round_real x)"
  using assms by (auto simp add: round_double_def Let_def)

lemma round_double_finite_iff:
  "round_double x = Finite y \<longleftrightarrow> y = round_real x \<and> \<bar>round_real x\<bar> < 2 powi 1024"
  by (auto simp add: round_double_def Let_def)

lemma round_double_representable:
  assumes "representable r"
  shows "round_double r = Finite r"
proof -
  from assms obtain m e :: int where r: "r = of_int m * 2 powi e" "\<bar>m\<bar> < 2 ^ 53" "e \<le> 971"
    unfolding representable_def by blast
  have "\<bar>real_of_int m\<bar> < real_of_int (2 ^ 53)"
    using r(2) by (simp only: of_int_abs[symmetric] of_int_less_iff)
  then have "\<bar>real_of_int m\<bar> < 2 powi 53"
    using of_int_two_power[of 53] by simp
  then have "\<bar>r\<bar> < 2 powi 53 * 2 powi e"
    by (simp add: r(1) abs_mult)
  also have "\<dots> = 2 powi (53 + e)"
    by (simp add: two_powi_add)
  also have "\<dots> \<le> 2 powi 1024"
    using r(3) by (intro power_int_increasing) simp_all
  finally have "\<bar>r\<bar> < 2 powi 1024" .
  then show ?thesis
    using round_real_representable[OF assms] by (simp add: round_double_finite)
qed

lemma representable_one [simp]: "representable 1"
  by (rule representableI[of _ 1 0]) simp_all

lemma round_real_unit_interval:
  assumes "0 \<le> x" "x \<le> 1"
  shows "0 \<le> round_real x" "round_real x \<le> 1"
  using round_real_mono[OF assms(1)] round_real_mono[OF assms(2)]
  by (simp_all add: round_real_representable)

lemma round_real_between:
  assumes "representable lo" "representable hi" "lo \<le> x" "x \<le> hi"
  shows "lo \<le> round_real x" "round_real x \<le> hi"
  using round_real_mono[OF assms(3)] round_real_mono[OF assms(4)] assms(1,2)
  by (simp_all add: round_real_representable)

lemma round_double_zero [simp]: "round_double 0 = Finite 0"
  by (simp add: round_double_def)

lemma lerp_at_zero:
  assumes "representable x" "dsub b (Finite x) = Finite d"
  shows "lerp (Finite x) b (Finite 0) = Finite x"
  using assms by (simp add: lerp_def round_double_representable)

lemma lerp_same:
  assumes "representable x"
  shows "lerp (Finite x) (Finite x) (Finite s) = Finite x"
  using assms by (simp add: lerp_def dsub_def round_double_representable)

lemma lerp_at_one_exact:
  assumes "representable x" "representable y" "representable (y - x)"
  shows "lerp (Finite x) (Finite y) (Finite 1) = Finite y"
  using assms by (simp add: lerp_def dsub_def round_double_representable)

lemma lerp_range:
  assumes x: "representable x"
    and d: "dsub (Finite y) (Finite x) = Finite d"
    and l: "lerp (Finite x) (Finite y) (Finite 1) = Finite l"
    and e: "representable e" "0 \<le> e" "e \<le> 1"
  shows "\<exists>v. lerp (Finite x) (Finite y) (Finite e) = Finite v \<and> representable v
           \<and> min x l \<le> v \<and> v \<le> max x l"
proof -
  have d_def: "d = round_real (y - x)" and d_fin: "\<bar>round_real (y - x)\<bar> < 2 powi 1024"
    using d by (simp_all add: dsub_def round_double_finite_iff)
  have d_rep: "representable d"
    using d_fin round_real_representable_result[of "y - x"] by (simp add: d_def)
  have l_def: "l = round_real (x + d)" and l_fin: "\<bar>round_real (x + d)\<bar> < 2 powi 1024"
    using l d by (simp_all add: lerp_def round_double_representable[OF d_rep]
        round_double_finite_iff)
  define p where "p = round_real (d * e)"
  have p_between: "min 0 d \<le> p \<and> p \<le> max 0 d"
  proof (cases "0 \<le> d")
    case True
    then have "0 \<le> d * e" "d * e \<le> d"
      using e by (simp_all add: mult_left_le)
    then have "0 \<le> p" "p \<le> d"
      using round_real_between[of 0 d "d * e"] d_rep by (simp_all add: p_def)
    with True show ?thesis by simp
  next
    case False
    then have "d \<le> d * e" "d * e \<le> 0"
      using e by (simp_all add: mult_le_0_iff mult_left_le_one_le)
    then have "d \<le> p" "p \<le> 0"
      using round_real_between[of d 0 "d * e"] d_rep by (simp_all add: p_def)
    with False show ?thesis by simp
  qed
  then have "\<bar>p\<bar> \<le> \<bar>d\<bar>"
    by (auto simp add: min_def max_def split: if_splits)
  then have p_fin: "\<bar>round_real (d * e)\<bar> < 2 powi 1024"
    using d_fin by (simp add: p_def d_def)
  then have mul: "dmul (Finite d) (Finite e) = Finite p"
    by (simp add: round_double_finite p_def)
  define v where "v = round_real (x + p)"
  have v_between: "min x l \<le> v \<and> v \<le> max x l"
  proof (cases "0 \<le> d")
    case True
    then have "x \<le> x + p" "x + p \<le> x + d"
      using p_between by simp_all
    then have "round_real x \<le> v" "v \<le> l"
      using round_real_mono by (simp_all add: v_def l_def)
    then show ?thesis
      by (simp add: round_real_representable[OF x] min_def max_def)
  next
    case False
    then have "x + d \<le> x + p" "x + p \<le> x"
      using p_between by simp_all
    then have "l \<le> v" "v \<le> round_real x"
      using round_real_mono by (simp_all add: v_def l_def)
    then show ?thesis
      by (simp add: round_real_representable[OF x] min_def max_def)
  qed
  have "\<bar>x\<bar> < 2 powi 1024"
    using round_double_representable[OF x] round_real_representable[OF x]
    by (simp add: round_double_finite_iff)
  then have v_fin: "\<bar>round_real (x + p)\<bar> < 2 powi 1024"
    using v_between l_fin by (auto simp add: v_def l_def min_def max_def split: if_splits)
  have "lerp (Finite x) (Finite y) (Finite e) = dadd (Finite x) (dmul (Finite d) (Finite e))"
    by (simp only: lerp_def d)
  also have "\<dots> = round_double (x + p)"
    by (simp only: mul dadd.simps)
  also have "\<dots> = Finite v"
    using v_fin by (simp only: round_double_finite v_def)
  finally have "lerp (Finite x) (Finite y) (Finite e) = Finite v" .
  moreover have "representable v"
    using v_fin round_real_representable_result[of "x + p"] by (simp add: v_def)
  ultimately show ?thesis
    using v_between by blast
qed

lemma round_double_eval:
  assumes "2 powi (e + 52) \<le> \<bar>x\<bar>" "\<bar>x\<bar> < 2 powi (e + 53)" "- 1074 \<le> e" "e \<le> 970"
  shows "round_double x = Finite (2 powi e * of_int (rne (x / 2 powi e)))"
proof -
  have y: "round_real x = 2 powi e * of_int (rne (x / 2 powi e))"
    using assms(1-3) by (rule round_real_exact)
  have "\<bar>x\<bar> \<le> 2 powi (e + 53)"
    using assms(2) by simp
  then have "- (2 powi (e + 53)) \<le> x" "x \<le> 2 powi (e + 53)"
    by linarith+
  moreover have "round_real (2 powi (e + 53)) = 2 powi (e + 53)"
    using assms(3) by (intro round_real_grid[of _ 1 "e + 53"]) simp_all
  ultimately have "- (2 powi (e + 53)) \<le> round_real x" "round_real x \<le> 2 powi (e + 53)"
    using round_real_mono[of "- (2 powi (e + 53))" x] round_real_mono[of x "2 powi (e + 53)"]
    by (simp_all add: round_real_minus)
  moreover have "(2 :: real) powi (e + 53) < 2 powi 1024"
    using assms(4) by (intro power_int_strict_increasing) simp_all
  ultimately have "\<bar>round_real x\<bar> < 2 powi 1024"
    by linarith
  then show ?thesis
    by (simp add: round_double_finite y)
qed

lemma round_double_overflow_neg:
  assumes "x \<le> - (2 powi 1024)"
  shows "round_double x = NegInfinity"
proof -
  have "round_real (- (2 powi 1024)) = - (2 powi 1024)"
    by (intro round_real_grid[of _ "- 1" 1024]) simp_all
  then have "round_real x \<le> - (2 powi 1024)"
    using round_real_mono[OF assms] by simp
  moreover have "- (2 powi 1024) < (2 :: real) powi 1024"
    using two_powi_pos[of 1024] by linarith
  ultimately show ?thesis
    by (simp add: round_double_def Let_def)
qed

lemma num_04: "round_double 0.4 = Finite (3602879701896397 / 2 ^ 53)"
proof -
  have "round_double 0.4 = Finite (2 powi (- 54) * of_int (rne (0.4 / 2 powi (- 54))))"
    by (rule round_double_eval) simp_all
  also have "\<dots> = Finite (3602879701896397 / 2 ^ 53)"
    by (simp add: rne_def Let_def)
  finally show ?thesis .
qed

lemma num_005: "round_double 0.05 = Finite (3602879701896397 / 2 ^ 56)"
proof -
  have "round_double 0.05 = Finite (2 powi (- 57) * of_int (rne (0.05 / 2 powi (- 57))))"
    by (rule round_double_eval) simp_all
  also have "\<dots> = Finite (3602879701896397 / 2 ^ 56)"
    by (simp add: rne_def Let_def)
  finally show ?thesis .
qed

lemma dsub_005_04:
  "dsub (Finite (3602879701896397 / 2 ^ 56)) (Finite (3602879701896397 / 2 ^ 53))
   = Finite (- 6305039478318695 / 2 ^ 54)"
proof -
  have "round_double (3602879701896397 / 2 ^ 56 - 3602879701896397 / 2 ^ 53)
        = Finite (2 powi (- 54) * of_int (rne ((3602879701896397 / 2 ^ 56
                    - 3602879701896397 / 2 ^ 53) / 2 powi (- 54))))"
    by (rule round_double_eval) simp_all
  also have "\<dots> = Finite (- 6305039478318695 / 2 ^ 54)"
    by (simp add: rne_def Let_def)
  finally show ?thesis
    by (simp add: dsub_def)
qed

lemma lerp_chaos_research_contact:
  "lerp (round_double 0.4) (round_double 0.05) (Finite 1) = Finite (900719925474099 / 2 ^ 54)"
proof -
  note sub = dsub_005_04
  have mul: "dmul (Finite (- 6305039478318695 / 2 ^ 54)) (Finite 1)
             = Finite (- 6305039478318695 / 2 ^ 54)"
  proof -
    have "round_double (- 6305039478318695 / 2 ^ 54)
          = Finite (2 powi (- 54) * of_int (rne ((- 6305039478318695 / 2 ^ 54) / 2 powi (- 54))))"
      by (rule round_double_eval) simp_all
    also have "\<dots> = Finite (- 6305039478318695 / 2 ^ 54)"
      by (simp add: rne_def Let_def)
    finally show ?thesis
      by simp
  qed
  have add: "dadd (Finite (3602879701896397 / 2 ^ 53)) (Finite (- 6305039478318695 / 2 ^ 54))
             = Finite (900719925474099 / 2 ^ 54)"
  proof -
    have "round_double (3602879701896397 / 2 ^ 53 + - 6305039478318695 / 2 ^ 54)
          = Finite (2 powi (- 57) * of_int (rne ((3602879701896397 / 2 ^ 53
                      + - 6305039478318695 / 2 ^ 54) / 2 powi (- 57))))"
      by (rule round_double_eval) simp_all
    also have "\<dots> = Finite (900719925474099 / 2 ^ 54)"
      by (simp add: rne_def Let_def)
    finally show ?thesis
      by simp
  qed
  show ?thesis
    by (simp only: lerp_def num_04 num_005 sub mul add)
qed

subsection \<open>Helper facts about the easing curve\<close>

lemma cube_mono_real:
  fixes s t :: real
  assumes "0 \<le> s" "s \<le> t"
  shows "s ^ 3 \<le> t ^ 3"
  using assms by (rule power_mono[rotated])

lemma ease_lower_piece_le_half:
  fixes t :: real
  assumes "0 \<le> t" "t < 1 / 2"
  shows "4 * t * t * t \<le> 1 / 2"
proof -
  have "t ^ 3 \<le> (1 / 2) ^ 3"
    using assms by (intro cube_mono_real) auto
  then show ?thesis
    by (simp add: power3_eq_cube)
qed

lemma ease_upper_piece_ge_half:
  fixes t :: real
  assumes "1 / 2 \<le> t" "t \<le> 1"
  shows "1 / 2 \<le> 1 - (- 2 * t + 2) ^ 3 / 2"
proof -
  have "(- 2 * t + 2) ^ 3 \<le> 1 ^ 3"
    using assms by (intro cube_mono_real) auto
  then show ?thesis
    by simp
qed

lemma easeInOutCubic_mono:
  assumes "0 \<le> s" "s \<le> t" "t \<le> 1"
  shows "easeInOutCubic s \<le> easeInOutCubic t"
proof (cases "t < 1 / 2")
  case True
  with assms have "s ^ 3 \<le> t ^ 3"
    by (intro cube_mono_real) auto
  with True assms show ?thesis
    by (simp add: easeInOutCubic_def power3_eq_cube)
next
  case tbig: False
  show ?thesis
  proof (cases "s < 1 / 2")
    case True
    have "easeInOutCubic s \<le> 1 / 2"
      using True assms ease_lower_piece_le_half[of s] by (simp add: easeInOutCubic_def)
    also have "1 / 2 \<le> easeInOutCubic t"
      using tbig assms ease_upper_piece_ge_half[of t] by (simp add: easeInOutCubic_def)
    finally show ?thesis .
  next
    case False
    have "(- 2 * t + 2) ^ 3 \<le> (- 2 * s + 2) ^ 3"
      using assms by (intro cube_mono_real) auto
    with False tbig show ?thesis
      by (simp add: easeInOutCubic_def)
  qed
qed

lemma easeInOutCubic_range:
  assumes "0 \<le> t" "t \<le> 1"
  shows "0 \<le> easeInOutCubic t \<and> easeInOutCubic t \<le> 1"
proof -
  have e0: "easeInOutCubic 0 = 0" and e1: "easeInOutCubic 1 = 1"
    by (simp_all add: easeInOutCubic_def)
  have "easeInOutCubic 0 \<le> easeInOutCubic t" "easeInOutCubic t \<le> easeInOutCubic 1"
    using assms by (auto intro: easeInOutCubic_mono)
  then show ?thesis
    by (simp add: e0 e1)
qed

subsection \<open>The cubic ease\<close>

text \<open>
  C5. \<open>easeInOutCubic\<close> is \<open>4 t^3\<close> below one half and \<open>1 - (2 - 2 t)^3 / 2\<close> from one
  half on; it maps 0 to 0 and 1 to 1; both pieces have the value one half at
  \<open>t = 0.5\<close>; and it is nondecreasing on the unit interval.
\<close>

theorem easeInOutCubic_well_formed:
  "easeInOutCubic t = (if t < 1 / 2 then 4 * t ^ 3 else 1 - (2 - 2 * t) ^ 3 / 2)
   \<and> easeInOutCubic 0 = 0
   \<and> easeInOutCubic 1 = 1
   \<and> 4 * (1 / 2 :: real) ^ 3 = 1 / 2
   \<and> 1 - (2 - 2 * (1 / 2 :: real)) ^ 3 / 2 = 1 / 2
   \<and> easeInOutCubic (1 / 2) = 1 / 2
   \<and> (\<forall>u v. 0 \<le> u \<and> u \<le> v \<and> v \<le> 1 \<longrightarrow> easeInOutCubic u \<le> easeInOutCubic v)"
proof -
  have shape: "easeInOutCubic t = (if t < 1 / 2 then 4 * t ^ 3 else 1 - (2 - 2 * t) ^ 3 / 2)"
    by (simp add: easeInOutCubic_def power3_eq_cube)
  have ends: "easeInOutCubic 0 = 0" "easeInOutCubic 1 = 1" "easeInOutCubic (1 / 2) = 1 / 2"
    by (simp_all add: easeInOutCubic_def)
  have pieces: "4 * (1 / 2 :: real) ^ 3 = 1 / 2" "1 - (2 - 2 * (1 / 2 :: real)) ^ 3 / 2 = 1 / 2"
    by (simp_all add: power3_eq_cube)
  have mono: "\<forall>u v. 0 \<le> u \<and> u \<le> v \<and> v \<le> 1 \<longrightarrow> easeInOutCubic u \<le> easeInOutCubic v"
    using easeInOutCubic_mono by blast
  from shape ends pieces mono show ?thesis
    by blast
qed

theorem easeInOutCubic_well_formed_witness:
  "easeInOutCubic (1 / 4) = 1 / 16 \<and> easeInOutCubic (3 / 4) = 15 / 16
   \<and> easeInOutCubic (1 / 4) \<le> easeInOutCubic (3 / 4)"
proof -
  have "easeInOutCubic (1 / 4) \<le> easeInOutCubic (3 / 4)"
    using easeInOutCubic_well_formed[of 0] by simp
  moreover have "easeInOutCubic (1 / 4) = 1 / 16" "easeInOutCubic (3 / 4) = 15 / 16"
    by (simp_all add: easeInOutCubic_def power3_eq_cube)
  ultimately show ?thesis
    by simp
qed

subsection \<open>Scattering the cards\<close>

lemma gsap_sets_fold_set:
  "gsap_sets (fold (\<lambda>(i, c). gsap_set c (g i)) xs br) = gsap_sets br @ map (\<lambda>(i, c). (c, g i)) xs"
  by (induction xs arbitrary: br) (auto simp add: gsap_set_def)

lemma disassembleCards_sets:
  "gsap_sets (snd (disassembleCards random cs p (sys, br))) =
     gsap_sets br @ map (\<lambda>(i, c). (c, disassembleCard random (length cs) i p)) (enumerate 0 cs)"
  by (simp add: disassembleCards_def gsap_sets_fold_set)

lemma disassembleCards_nth:
  assumes "i < length cs"
  shows "gsap_sets (snd (disassembleCards random cs p (sys, br))) ! (length (gsap_sets br) + i)
         = (cs ! i, disassembleCard random (length cs) i p)"
  using assms by (simp add: disassembleCards_sets nth_append nth_enumerate_eq)

text \<open>
  C9. For every real \<open>progress\<close>, also outside the unit interval, and every card
  index \<open>i\<close>, the adjusted progress of card \<open>i\<close> (\<open>progress\<close> minus the stagger
  delay \<open>i * 0.1\<close>, clamped) lies in \<open>[0, 1]\<close>, and the \<open>gsap.set\<close> call for that
  card writes an opacity in \<open>[0, 1]\<close>, a scale in \<open>[0.5, 1]\<close> and a blur radius in
  \<open>[0, 12]\<close>.
\<close>

theorem disassembleCards_ranges:
  assumes "i < length cs"
  shows "\<exists>adj v. adj = max 0 (min 1 (p - real i * 0.1))
           \<and> 0 \<le> adj \<and> adj \<le> 1
           \<and> gsap_sets (snd (disassembleCards random cs p (sys, br))) ! (length (gsap_sets br) + i)
               = (cs ! i, v)
           \<and> tw_opacity v = Some (1 - adj) \<and> 0 \<le> 1 - adj \<and> 1 - adj \<le> 1
           \<and> tw_scale v = Some (1 - adj * 0.5) \<and> 0.5 \<le> 1 - adj * 0.5 \<and> 1 - adj * 0.5 \<le> 1
           \<and> tw_filter v = Some (Blur (adj * 12)) \<and> 0 \<le> adj * 12 \<and> adj * 12 \<le> 12"
  using disassembleCards_nth[OF assms, of random p sys br]
  by (auto simp add: disassembleCard_def Let_def)

theorem disassembleCards_ranges_witness:
  "(1::nat) < length [10::element, 11]
   \<and> fst (gsap_sets (snd (disassembleCards (\<lambda>i. 1 / 4) [10, 11] 5
            (example_system, fresh_browser))) ! 1) = 11
   \<and> tw_opacity (snd (gsap_sets (snd (disassembleCards (\<lambda>i. 1 / 4) [10, 11] 5
            (example_system, fresh_browser))) ! 1)) = Some 0
   \<and> tw_scale (snd (gsap_sets (snd (disassembleCards (\<lambda>i. 1 / 4) [10, 11] 5
            (example_system, fresh_browser))) ! 1)) = Some (1 / 2)
   \<and> tw_filter (snd (gsap_sets (snd (disassembleCards (\<lambda>i. 1 / 4) [10, 11] 5
            (example_system, fresh_browser))) ! 1)) = Some (Blur 12)"
  using disassembleCards_ranges[of 1 "[10, 11]" 5 "\<lambda>i. 1 / 4" example_system fresh_browser]
  by (auto simp add: fresh_browser_def)

subsection \<open>Initialization\<close>

lemma initialize_try_no_gl:
  assumes "gl v = None"
  shows "initialize_try doc (Inr v) (app, br)
         = (Threw (Error ''Failed to create WebGL context''),
            app\<lparr>quantumVisualizer := Some v\<rparr>,
            logger_info ''Creating WorkingQuantumVisualizer...'' br)"
  using assms by (simp add: initialize_try_def Let_def)

lemma initialize_simplified_try_no_gl:
  assumes "gl v = None"
  shows "initialize_simplified_try (Inr v) newChoreographer choreographerInitialize (app, br)
         = (Threw (Error ''Failed to create WebGL context''),
            app\<lparr>quantumVisualizer := Some v\<rparr>,
            logger_info ''Creating WorkingQuantumVisualizer...'' br)"
  using assms by (simp add: initialize_simplified_try_def Let_def)

text \<open>
  C6. When the visualizer comes back without a WebGL context (\<open>gl\<close> absent) in an
  application that is not initialized, \<open>initialize\<close> (in both versions) returns
  normally: the error thrown in the \<open>try\<close> block is caught and written to the logger
  and the console, nothing else is done (no render loop, no morphing system or
  choreographer, no timeline), the \<open>clearSeasEnhancedReady\<close> event is not dispatched
  and \<open>isInitialized\<close> stays false.
\<close>

theorem initialize_webgl_failure:
  assumes "\<not> isInitialized app" and "\<not> isInitialized app2" and "gl v = None"
  shows "initialize doc (Inr v) (app, br)
           = (Returned,
              app\<lparr>quantumVisualizer := Some v\<rparr>,
              br\<lparr>logger := logger br @
                     [Info ''Creating WorkingQuantumVisualizer...'',
                      Err ''Initialization failed: Failed to create WebGL context''],
                 console := console br @ [Err ''Failed to create WebGL context'']\<rparr>)
       \<and> initialize_simplified (Inr v) newChoreographer choreographerInitialize (app2, br2)
           = (Returned,
              app2\<lparr>quantumVisualizer := Some v\<rparr>,
              br2\<lparr>logger := logger br2 @
                     [Info ''Creating WorkingQuantumVisualizer...'',
                      Err ''Initialization failed: Failed to create WebGL context''],
                 console := console br2 @ [Err ''Failed to create WebGL context'']\<rparr>)
       \<and> isInitialized (fst (snd (initialize doc (Inr v) (app, br)))) = False
       \<and> isInitialized (fst (snd (initialize_simplified (Inr v) newChoreographer
             choreographerInitialize (app2, br2)))) = False
       \<and> morphingSystem (fst (snd (initialize doc (Inr v) (app, br)))) = morphingSystem app
       \<and> detailedScrollChoreographer (fst (snd (initialize_simplified (Inr v) newChoreographer
             choreographerInitialize (app2, br2)))) = detailedScrollChoreographer app2
       \<and> dispatched (snd (snd (initialize doc (Inr v) (app, br)))) = dispatched br
       \<and> dispatched (snd (snd (initialize_simplified (Inr v) newChoreographer
             choreographerInitialize (app2, br2)))) = dispatched br2
       \<and> animation_frames (snd (snd (initialize doc (Inr v) (app, br)))) = animation_frames br
       \<and> animation_frames (snd (snd (initialize_simplified (Inr v) newChoreographer
             choreographerInitialize (app2, br2)))) = animation_frames br2
       \<and> timelines (snd (snd (initialize doc (Inr v) (app, br)))) = timelines br"
proof -
  have one: "initialize doc (Inr v) (app, br)
           = (Returned,
              app\<lparr>quantumVisualizer := Some v\<rparr>,
              br\<lparr>logger := logger br @
                     [Info ''Creating WorkingQuantumVisualizer...'',
                      Err ''Initialization failed: Failed to create WebGL context''],
                 console := console br @ [Err ''Failed to create WebGL context'']\<rparr>)"
    using assms(1)
    by (simp add: initialize_def initialize_try_no_gl[OF assms(3)] logger_info_def
        logger_error_def console_error_def)
  have two: "initialize_simplified (Inr v) newChoreographer choreographerInitialize (app2, br2)
           = (Returned,
              app2\<lparr>quantumVisualizer := Some v\<rparr>,
              br2\<lparr>logger := logger br2 @
                     [Info ''Creating WorkingQuantumVisualizer...'',
                      Err ''Initialization failed: Failed to create WebGL context''],
                 console := console br2 @ [Err ''Failed to create WebGL context'']\<rparr>)"
    using assms(2)
    by (simp add: initialize_simplified_def initialize_simplified_try_no_gl[OF assms(3)]
        logger_info_def logger_error_def console_error_def)
  show ?thesis
    using assms(1,2) by (simp add: one two)
qed

theorem initialize_webgl_failure_witness:
  "\<not> isInitialized (fst (new_ClearSeasEnhancedApplication fresh_browser))
   \<and> \<not> isInitialized (fst (new_ClearSeasEnhancedApplication_simplified fresh_browser))
   \<and> gl \<lparr>gl = None, params = Some zero_params\<rparr> = None
   \<and> initialize example_page (Inr \<lparr>gl = None, params = Some zero_params\<rparr>)
        (new_ClearSeasEnhancedApplication fresh_browser)
      = (Returned,
         \<lparr>quantumVisualizer = Some \<lparr>gl = None, params = Some zero_params\<rparr>,
          isInitialized = False, morphingSystem = None\<rparr>,
         \<lparr>console = [Err ''Failed to create WebGL context''],
          logger = [Info ''Clear Seas Solutions - Integrated Morphing System'',
                    Info ''Creating WorkingQuantumVisualizer...'',
                    Err ''Initialization failed: Failed to create WebGL context''],
          gsap_sets = [], timelines = [], text_tweens = [], animation_frames = 0,
          dispatched = []\<rparr>)
   \<and> initialize_simplified (Inr \<lparr>gl = None, params = Some zero_params\<rparr>)
        (Inr DetailedScrollChoreographer) (\<lambda>c. None)
        (new_ClearSeasEnhancedApplication_simplified fresh_browser)
      = (Returned,
         \<lparr>quantumVisualizer = Some \<lparr>gl = None, params = Some zero_params\<rparr>,
          isInitialized = False, detailedScrollChoreographer = None\<rparr>,
         \<lparr>console = [Err ''Failed to create WebGL context''],
          logger = [Info ''Clear Seas Solutions - Working Visualizer System'',
                    Info ''Creating WorkingQuantumVisualizer...'',
                    Err ''Initialization failed: Failed to create WebGL context''],
          gsap_sets = [], timelines = [], text_tweens = [], animation_frames = 0,
          dispatched = []\<rparr>)"
  using initialize_webgl_failure
          [of "fst (new_ClearSeasEnhancedApplication fresh_browser)"
              "fst (new_ClearSeasEnhancedApplication_simplified fresh_browser)"
              "\<lparr>gl = None, params = Some zero_params\<rparr>"
              example_page
              "snd (new_ClearSeasEnhancedApplication fresh_browser)"
              "Inr DetailedScrollChoreographer" "\<lambda>c. None"
              "snd (new_ClearSeasEnhancedApplication_simplified fresh_browser)"]
  by (simp add: new_ClearSeasEnhancedApplication_def new_ClearSeasEnhancedApplication_simplified_def
      fresh_browser_def logger_info_def)

lemma initialize_guard_once:
  assumes "isInitialized app"
  shows "initialize doc newVisualizer (app, br)
         = (Returned, app, br\<lparr>logger := logger br @ [Warn ''Already initialized'']\<rparr>)"
  using assms by (simp add: initialize_def logger_warn_def)

lemma initialize_simplified_guard_once:
  assumes "isInitialized app"
  shows "initialize_simplified newVisualizer newChoreographer choreographerInitialize (app, br)
         = (Returned, app, br\<lparr>logger := logger br @ [Warn ''Already initialized'']\<rparr>)"
  using assms by (simp add: initialize_simplified_def logger_warn_def)

lemma initialize_guard_repeated:
  assumes "isInitialized app"
  shows "((\<lambda>r. initialize doc newVisualizer (snd r)) ^^ n) (Returned, app, br)
         = (Returned, app,
            br\<lparr>logger := logger br @ replicate n (Warn ''Already initialized'')\<rparr>)"
proof (induction n)
  case 0
  show ?case by simp
next
  case (Suc n)
  then show ?case
    by (simp add: initialize_guard_once[OF assms] replicate_append_same)
qed

lemma initialize_simplified_guard_repeated:
  assumes "isInitialized app"
  shows "((\<lambda>r. initialize_simplified newVisualizer newChoreographer choreographerInitialize
                 (snd r)) ^^ n) (Returned, app, br)
         = (Returned, app,
            br\<lparr>logger := logger br @ replicate n (Warn ''Already initialized'')\<rparr>)"
proof (induction n)
  case 0
  show ?case by simp
next
  case (Suc n)
  then show ?case
    by (simp add: initialize_simplified_guard_once[OF assms] replicate_append_same)
qed

lemma initialize_success:
  assumes "\<not> isInitialized app" "gl v \<noteq> None"
  shows "isInitialized (fst (snd (initialize doc (Inr v) (app, br))))"
  using assms
  by (simp add: initialize_def initialize_try_def Let_def case_prod_beta)

text \<open>
  C10. Once \<open>isInitialized\<close> is true, a call of \<open>initialize\<close> (in both versions)
  returns after logging the warning, with every field of the application unchanged
  and nothing in the browser changed but the logger; and so does every further call:
  after \<open>n\<close> calls the application is the same and the browser has \<open>n\<close> warnings more.
\<close>

theorem initialize_idempotent:
  assumes "isInitialized app" and "isInitialized app2"
  shows "initialize doc newVisualizer (app, br)
           = (Returned, app, br\<lparr>logger := logger br @ [Warn ''Already initialized'']\<rparr>)
       \<and> initialize_simplified newVisualizer newChoreographer choreographerInitialize (app2, br2)
           = (Returned, app2, br2\<lparr>logger := logger br2 @ [Warn ''Already initialized'']\<rparr>)
       \<and> ((\<lambda>r. initialize doc newVisualizer (snd r)) ^^ n) (Returned, app, br)
           = (Returned, app,
              br\<lparr>logger := logger br @ replicate n (Warn ''Already initialized'')\<rparr>)
       \<and> ((\<lambda>r. initialize_simplified newVisualizer newChoreographer choreographerInitialize
                 (snd r)) ^^ n) (Returned, app2, br2)
           = (Returned, app2,
              br2\<lparr>logger := logger br2 @ replicate n (Warn ''Already initialized'')\<rparr>)"
  using initialize_guard_once[OF assms(1)] initialize_simplified_guard_once[OF assms(2)]
    initialize_guard_repeated[OF assms(1)] initialize_simplified_guard_repeated[OF assms(2)]
  by simp

theorem initialize_idempotent_witness:
  "isInitialized (fst (snd (initialize example_page (Inr working_visualizer)
      (new_ClearSeasEnhancedApplication fresh_browser))))
   \<and> isInitialized \<lparr>quantumVisualizer = Some working_visualizer, isInitialized = True,
                      detailedScrollChoreographer = Some DetailedScrollChoreographer\<rparr>
   \<and> fst (snd (initialize example_page (Inr working_visualizer)
        (snd (initialize example_page (Inr working_visualizer)
           (new_ClearSeasEnhancedApplication fresh_browser)))))
      = fst (snd (initialize example_page (Inr working_visualizer)
           (new_ClearSeasEnhancedApplication fresh_browser)))
   \<and> animation_frames (snd (snd (initialize example_page (Inr working_visualizer)
        (snd (initialize example_page (Inr working_visualizer)
           (new_ClearSeasEnhancedApplication fresh_browser))))))
      = animation_frames (snd (snd (initialize example_page (Inr working_visualizer)
           (new_ClearSeasEnhancedApplication fresh_browser))))"
proof -
  let ?first = "initialize example_page (Inr working_visualizer)
                  (new_ClearSeasEnhancedApplication fresh_browser)"
  have flag: "isInitialized (fst (snd ?first))"
    using initialize_success[of "fst (new_ClearSeasEnhancedApplication fresh_browser)"
        working_visualizer example_page "snd (new_ClearSeasEnhancedApplication fresh_browser)"]
    by (simp add: new_ClearSeasEnhancedApplication_def working_visualizer_def)
  have flag2: "isInitialized \<lparr>quantumVisualizer = Some working_visualizer, isInitialized = True,
                      detailedScrollChoreographer = Some DetailedScrollChoreographer\<rparr>"
    by simp
  have "initialize example_page (Inr working_visualizer) (fst (snd ?first), snd (snd ?first))
        = (Returned, fst (snd ?first),
           (snd (snd ?first))\<lparr>logger := logger (snd (snd ?first)) @ [Warn ''Already initialized'']\<rparr>)"
    using initialize_idempotent[OF flag flag2, of example_page "Inr working_visualizer"
        "snd (snd ?first)"] by simp
  with flag show ?thesis
    by simp
qed

subsection \<open>Registering a section\<close>

text \<open>
  C8, as stated, fails: on the example page the section \<open>hero\<close> has two signal
  cards, and registering it with a \<open>config\<close> that has a property \<open>cardCount: 7\<close> of
  its own stores an entry whose \<open>cardCount\<close> is 7, because \<open>...config\<close> is spread
  last.
\<close>

theorem registerSection_cardCount_overridden:
  "getElementById example_page ''hero'' = Some 1
   \<and> length (querySelectorAll example_page 1 ''.signal-card'') = 2
   \<and> map_option cardCount
        (map_of (sectionConfigs (fst (registerSection example_page ''hero''
            \<lparr>cfg_cardSelector = Some ''.signal-card'', cfg_layout = Some ''grid'',
             cfg_visualizerState = hero_state, cfg_section = None, cfg_cards = None,
             cfg_cardCount = Some 7\<rparr>
            (example_system, fresh_browser)))) ''hero'')
      = Some 7
   \<and> map_option cardCount
        (map_of (sectionConfigs (fst (registerSection example_page ''hero''
            \<lparr>cfg_cardSelector = Some ''.signal-card'', cfg_layout = Some ''grid'',
             cfg_visualizerState = hero_state, cfg_section = None, cfg_cards = None,
             cfg_cardCount = Some 7\<rparr>
            (example_system, fresh_browser)))) ''hero'')
      \<noteq> Some (length (querySelectorAll example_page 1 ''.signal-card''))"
  by (simp add: registerSection_def example_page_def example_system_def spread_config_def
      or_else_def Let_def)

text \<open>
  C8, amended. When the document has no element with the id, \<open>registerSection\<close>
  leaves the system (and so the \<open>sectionConfigs\<close> map) unchanged. When it has one,
  the map afterwards is the map before with the entry for that id set: the keys keep
  their order, a new id is appended, no other entry changes; and the entry's
  \<open>cardCount\<close> is the number of elements the card selector matches in the section,
  unless \<open>config\<close> has a \<open>cardCount\<close> property of its own, which then is the entry's.
\<close>

theorem registerSection_atomic:
  "(case getElementById doc sectionId of
      None \<Rightarrow>
        fst (registerSection doc sectionId config (sys, br)) = sys
    | Some sec \<Rightarrow>
        visualizer (fst (registerSection doc sectionId config (sys, br))) = visualizer sys
        \<and> (\<exists>entry.
              map_of (sectionConfigs (fst (registerSection doc sectionId config (sys, br))))
                = (map_of (sectionConfigs sys))(sectionId \<mapsto> entry)
            \<and> map fst (sectionConfigs (fst (registerSection doc sectionId config (sys, br))))
                = (if sectionId \<in> set (map fst (sectionConfigs sys))
                   then map fst (sectionConfigs sys)
                   else map fst (sectionConfigs sys) @ [sectionId])
            \<and> cardCount entry
                = (case cfg_cardCount config of
                     None \<Rightarrow> length (querySelectorAll doc sec
                                (or_else (cfg_cardSelector config)
                                   ''.signal-card, .card, .capability-card''))
                   | Some n \<Rightarrow> n)))"
proof (cases "getElementById doc sectionId")
  case None
  then show ?thesis
    by (simp add: registerSection_def)
next
  case (Some sec)
  define cs where "cs = querySelectorAll doc sec
     (or_else (cfg_cardSelector config) ''.signal-card, .card, .capability-card'')"
  define entry where "entry = spread_config config
     \<lparr>sectionElement = sec, cards = cs, layout = or_else (cfg_layout config) ''grid'',
      cardCount = length cs, visualizerState = cfg_visualizerState config,
      cardSelector = None\<rparr>"
  have reg: "fst (registerSection doc sectionId config (sys, br))
             = sys\<lparr>sectionConfigs := AList.update sectionId entry (sectionConfigs sys)\<rparr>"
    using Some by (simp add: registerSection_def Let_def entry_def cs_def)
  have cnt: "cardCount entry = (case cfg_cardCount config of None \<Rightarrow> length cs | Some n \<Rightarrow> n)"
    by (simp add: entry_def spread_config_def split: option.split)
  have "visualizer (fst (registerSection doc sectionId config (sys, br))) = visualizer sys
        \<and> map_of (sectionConfigs (fst (registerSection doc sectionId config (sys, br))))
                = (map_of (sectionConfigs sys))(sectionId \<mapsto> entry)
        \<and> map fst (sectionConfigs (fst (registerSection doc sectionId config (sys, br))))
                = (if sectionId \<in> set (map fst (sectionConfigs sys))
                   then map fst (sectionConfigs sys)
                   else map fst (sectionConfigs sys) @ [sectionId])"
    by (simp add: reg update_conv' update_keys)
  with cnt Some show ?thesis
    unfolding cs_def by auto
qed

theorem registerSection_atomic_witness:
  "getElementById example_page ''contact'' = None
   \<and> fst (registerSection example_page ''contact''
        \<lparr>cfg_cardSelector = Some ''.contact-card'', cfg_layout = Some ''flex'',
         cfg_visualizerState = hero_state, cfg_section = None, cfg_cards = None,
         cfg_cardCount = None\<rparr>
        (example_system, fresh_browser)) = example_system
   \<and> getElementById example_page ''hero'' = Some 1
   \<and> map fst (sectionConfigs (fst (registerSection example_page ''hero''
        \<lparr>cfg_cardSelector = Some ''.signal-card'', cfg_layout = Some ''grid'',
         cfg_visualizerState = hero_state, cfg_section = None, cfg_cards = None,
         cfg_cardCount = None\<rparr>
        (example_system, fresh_browser)))) = [''hero'']
   \<and> map_option cardCount (map_of (sectionConfigs (fst (registerSection example_page ''hero''
        \<lparr>cfg_cardSelector = Some ''.signal-card'', cfg_layout = Some ''grid'',
         cfg_visualizerState = hero_state, cfg_section = None, cfg_cards = None,
         cfg_cardCount = None\<rparr>
        (example_system, fresh_browser)))) ''hero'') = Some 2"
proof -
  have missing: "getElementById example_page ''contact'' = None"
    and found: "getElementById example_page ''hero'' = Some 1"
    and two: "length (querySelectorAll example_page (Suc 0) ''.signal-card'') = 2"
    by (simp_all add: example_page_def)
  have empty: "sectionConfigs example_system = []"
    by (simp add: example_system_def)
  have a: "fst (registerSection example_page ''contact''
        \<lparr>cfg_cardSelector = Some ''.contact-card'', cfg_layout = Some ''flex'',
         cfg_visualizerState = hero_state, cfg_section = None, cfg_cards = None,
         cfg_cardCount = None\<rparr>
        (example_system, fresh_browser)) = example_system"
    using registerSection_atomic[of example_page "''contact''"
          "\<lparr>cfg_cardSelector = Some ''.contact-card'', cfg_layout = Some ''flex'',
            cfg_visualizerState = hero_state, cfg_section = None, cfg_cards = None,
            cfg_cardCount = None\<rparr>" example_system fresh_browser]
    by (simp add: missing)
  have b: "map fst (sectionConfigs (fst (registerSection example_page ''hero''
        \<lparr>cfg_cardSelector = Some ''.signal-card'', cfg_layout = Some ''grid'',
         cfg_visualizerState = hero_state, cfg_section = None, cfg_cards = None,
         cfg_cardCount = None\<rparr>
        (example_system, fresh_browser)))) = [''hero'']
     \<and> map_option cardCount (map_of (sectionConfigs (fst (registerSection example_page ''hero''
        \<lparr>cfg_cardSelector = Some ''.signal-card'', cfg_layout = Some ''grid'',
         cfg_visualizerState = hero_state, cfg_section = None, cfg_cards = None,
         cfg_cardCount = None\<rparr>
        (example_system, fresh_browser)))) ''hero'') = Some 2"
    using registerSection_atomic[of example_page "''hero''"
          "\<lparr>cfg_cardSelector = Some ''.signal-card'', cfg_layout = Some ''grid'',
            cfg_visualizerState = hero_state, cfg_section = None, cfg_cards = None,
            cfg_cardCount = None\<rparr>" example_system fresh_browser]
    by (auto simp add: found two empty or_else_def)
  from a b missing found show ?thesis
    by blast
qed

subsection \<open>The three windows of a transition\<close>

text \<open>
  C1. \<open>onTransitionProgress\<close> runs exactly the handlers of its three windows: it
  calls \<open>disassembleCards\<close> on the from-cards with \<open>p / 0.4\<close> if and only if
  \<open>p < 0.4\<close>, \<open>morphVisualizer\<close> on the two presets with \<open>(p - 0.3) / 0.4\<close> if and
  only if \<open>0.3 \<le> p \<le> 0.7\<close>, and \<open>assembleCards\<close> on the to-cards with
  \<open>(p - 0.6) / 0.4\<close> if and only if \<open>p \<ge> 0.6\<close>. The windows overlap: for \<open>p\<close> in
  \<open>(0.3, 0.4)\<close> the cards are disassembled and the visualizer morphs, for \<open>p\<close> in
  \<open>[0.6, 0.7]\<close> the visualizer morphs and the cards are assembled. Every \<open>p\<close> in
  \<open>[0, 1]\<close> lies in at least one window.
\<close>

theorem onTransitionProgress_phase_windows:
  "onTransitionProgress doc random fromConfig toConfig p s
     = (if p \<ge> 0.6 then assembleCards doc (cards toConfig) ((p - 0.6) / 0.4) else id)
         ((if p \<ge> 0.3 \<and> p \<le> 0.7
           then morphVisualizer (visualizerState fromConfig) (visualizerState toConfig)
                  ((p - 0.3) / 0.4)
           else id)
            ((if p < 0.4 then disassembleCards random (cards fromConfig) (p / 0.4) else id) s))
   \<and> (DisassembleCards cs x \<in> set (transition_calls fromConfig toConfig p)
        \<longleftrightarrow> p < 0.4 \<and> cs = cards fromConfig \<and> x = p / 0.4)
   \<and> (MorphVisualizer a b x \<in> set (transition_calls fromConfig toConfig p)
        \<longleftrightarrow> 0.3 \<le> p \<and> p \<le> 0.7 \<and> a = visualizerState fromConfig
            \<and> b = visualizerState toConfig \<and> x = (p - 0.3) / 0.4)
   \<and> (AssembleCards cs x \<in> set (transition_calls fromConfig toConfig p)
        \<longleftrightarrow> p \<ge> 0.6 \<and> cs = cards toConfig \<and> x = (p - 0.6) / 0.4)
   \<and> (0.3 < p \<and> p < 0.4 \<longrightarrow>
        transition_calls fromConfig toConfig p
          = [DisassembleCards (cards fromConfig) (p / 0.4),
             MorphVisualizer (visualizerState fromConfig) (visualizerState toConfig)
               ((p - 0.3) / 0.4)])
   \<and> (0.6 \<le> p \<and> p \<le> 0.7 \<longrightarrow>
        transition_calls fromConfig toConfig p
          = [MorphVisualizer (visualizerState fromConfig) (visualizerState toConfig)
               ((p - 0.3) / 0.4),
             AssembleCards (cards toConfig) ((p - 0.6) / 0.4)])
   \<and> (0 \<le> p \<and> p \<le> 1 \<longrightarrow> transition_calls fromConfig toConfig p \<noteq> [])"
  by (auto simp add: onTransitionProgress_def transition_calls_def Let_def)

theorem onTransitionProgress_phase_windows_witness:
  "(0.3 :: real) < 0.35 \<and> (0.35 :: real) < 0.4
   \<and> transition_calls hero_config capabilities_config 0.35
       = [DisassembleCards [10, 11] (0.35 / 0.4),
          MorphVisualizer hero_state capabilities_state ((0.35 - 0.3) / 0.4)]
   \<and> (0.6 :: real) \<le> 0.65 \<and> (0.65 :: real) \<le> 0.7
   \<and> transition_calls hero_config capabilities_config 0.65
       = [MorphVisualizer hero_state capabilities_state ((0.65 - 0.3) / 0.4),
          AssembleCards [20] ((0.65 - 0.6) / 0.4)]
   \<and> (0 :: real) \<le> 0.5 \<and> (0.5 :: real) \<le> 1
   \<and> transition_calls hero_config capabilities_config 0.5 \<noteq> []"
  using onTransitionProgress_phase_windows[where p = "0.35" and fromConfig = hero_config
          and toConfig = capabilities_config]
        onTransitionProgress_phase_windows[where p = "0.65" and fromConfig = hero_config
          and toConfig = capabilities_config]
        onTransitionProgress_phase_windows[where p = "0.5" and fromConfig = hero_config
          and toConfig = capabilities_config]
  by (simp add: hero_config_def capabilities_config_def)

subsection \<open>Linear interpolation\<close>

lemma finite_doubleE:
  assumes "finite_double a"
  obtains x where "a = Finite x" "representable x"
  using assms by (cases a) simp_all

lemma representable_num_04: "representable (3602879701896397 / 2 ^ 53)"
  by (rule representableI[of _ 3602879701896397 "- 53"]) (simp_all add: power_int_minus_divide)

lemma num_06: "num 0.6 = Finite (5404319552844595 / 2 ^ 53)"
proof -
  have "round_double 0.6 = Finite (2 powi (- 53) * of_int (rne (0.6 / 2 powi (- 53))))"
    by (rule round_double_eval) simp_all
  also have "\<dots> = Finite (5404319552844595 / 2 ^ 53)"
    by (simp add: rne_def Let_def)
  finally show ?thesis .
qed

lemma num_07: "num 0.7 = Finite (3152519739159347 / 2 ^ 52)"
proof -
  have "round_double 0.7 = Finite (2 powi (- 53) * of_int (rne (0.7 / 2 powi (- 53))))"
    by (rule round_double_eval) simp_all
  also have "\<dots> = Finite (3152519739159347 / 2 ^ 52)"
    by (simp add: rne_def Let_def)
  finally show ?thesis .
qed

lemma representable_num_06: "representable (5404319552844595 / 2 ^ 53)"
  by (rule representableI[of _ 5404319552844595 "- 53"]) (simp_all add: power_int_minus_divide)

lemma representable_num_07: "representable (3152519739159347 / 2 ^ 52)"
  by (rule representableI[of _ 3152519739159347 "- 52"]) (simp_all add: power_int_minus_divide)

lemma representable_num_07_minus_06:
  "representable (3152519739159347 / 2 ^ 52 - 5404319552844595 / 2 ^ 53)"
  by (rule representableI[of _ 900719925474099 "- 53"]) (simp_all add: power_int_minus_divide)

lemma num_1e308:
  obtains r where "num (10 ^ 308) = Finite r" "num (- (10 ^ 308)) = Finite (- r)"
    "representable r" "2 powi 1023 \<le> r"
proof -
  define r where "r = round_real (10 ^ 308)"
  have lo: "round_real (2 powi 1023) = 2 powi 1023"
    by (rule round_real_grid[of _ 1 1023]) simp_all
  have hi: "round_real (of_int (2 ^ 53 - 1) * 2 powi 971) = of_int (2 ^ 53 - 1) * 2 powi 971"
    by (rule round_real_grid[of _ "2 ^ 53 - 1" 971]) simp_all
  have "(2 :: real) powi 1023 \<le> 10 ^ 308"
    by simp
  then have r_lo: "2 powi 1023 \<le> r"
    using round_real_mono[of "2 powi 1023" "10 ^ 308"] by (simp only: lo r_def)
  have "(10 :: real) ^ 308 \<le> of_int (2 ^ 53 - 1) * 2 powi 971"
    by simp
  then have "r \<le> of_int (2 ^ 53 - 1) * 2 powi 971"
    using round_real_mono[of "10 ^ 308" "of_int (2 ^ 53 - 1) * 2 powi 971"]
    by (simp only: hi r_def)
  moreover have "real_of_int (2 ^ 53 - 1) * 2 powi 971 < 2 powi 1024"
    by simp
  moreover have "0 \<le> r"
    using r_lo two_powi_pos[of 1023] by linarith
  ultimately have fin: "\<bar>round_real (10 ^ 308)\<bar> < 2 powi 1024"
    unfolding r_def by linarith
  then have "num (10 ^ 308) = Finite r"
    by (simp only: round_double_finite r_def)
  moreover have "num (- (10 ^ 308)) = Finite (- r)"
    using fin by (simp add: round_double_finite r_def round_real_minus)
  moreover have "representable r"
    using fin unfolding r_def by (rule round_real_representable_result)
  ultimately show ?thesis
    using r_lo that by blast
qed

lemma lerp_overflow_1e308: "lerp (num (10 ^ 308)) (num (- (10 ^ 308))) (Finite 0) = NaN"
proof -
  obtain r where r: "num (10 ^ 308) = Finite r" "num (- (10 ^ 308)) = Finite (- r)"
    "2 powi 1023 \<le> r"
    using num_1e308 by blast
  have "(2 :: real) powi 1024 = 2 * 2 powi 1023"
    using two_powi_add[of 1 1023] by simp
  then have "- r + - r \<le> - (2 powi 1024)"
    using r(3) by linarith
  then have "round_double (- r + - r) = NegInfinity"
    by (rule round_double_overflow_neg)
  then have sub: "dsub (num (- (10 ^ 308))) (num (10 ^ 308)) = NegInfinity"
    by (simp only: r(1,2) dsub_def dneg.simps dadd.simps)
  have "lerp (num (10 ^ 308)) (num (- (10 ^ 308))) (Finite 0)
        = dadd (num (10 ^ 308)) (dmul NegInfinity (Finite 0))"
    by (simp only: lerp_def sub)
  also have "\<dots> = NaN"
    by (simp only: r(1)) simp
  finally show ?thesis .
qed

text \<open>
  C4, as stated, fails. In the doubles the code computes with,
  \<open>lerp(0.4, 0.05, 1)\<close> is \<open>0.04999999999999999\<close> (one unit in the last place below
  \<open>0.05\<close>), so \<open>lerp(a, b, 1) = b\<close> does not hold for all numbers; and
  \<open>lerp(1e308, -1e308, 0)\<close> is NaN, because \<open>b - a\<close> overflows, so
  \<open>lerp(a, b, 0) = a\<close> does not either.
\<close>

theorem lerp_endpoints_not_exact:
  "lerp (num 0.4) (num 0.05) (Finite 1) = Finite (900719925474099 / 2 ^ 54)
   \<and> num 0.05 = Finite (3602879701896397 / 2 ^ 56)
   \<and> lerp (num 0.4) (num 0.05) (Finite 1) \<noteq> num 0.05
   \<and> lerp (num (10 ^ 308)) (num (- (10 ^ 308))) (Finite 0) = NaN
   \<and> lerp (num (10 ^ 308)) (num (- (10 ^ 308))) (Finite 0) \<noteq> num (10 ^ 308)"
proof -
  obtain r where r: "num (10 ^ 308) = Finite r"
    using num_1e308 by blast
  have a: "lerp (num 0.4) (num 0.05) (Finite 1) \<noteq> num 0.05"
    by (simp only: lerp_chaos_research_contact) (simp only: num_005, simp)
  have b: "lerp (num (10 ^ 308)) (num (- (10 ^ 308))) (Finite 0) \<noteq> num (10 ^ 308)"
    by (simp only: lerp_overflow_1e308) (simp only: r, simp)
  show ?thesis
    by (intro conjI) (fact lerp_chaos_research_contact num_005 a lerp_overflow_1e308 b)+
qed

text \<open>
  C4, amended. \<open>lerp(a, b, t)\<close> is \<open>a + (b - a) * t\<close> in double arithmetic, each of
  the three operations rounded. For finite doubles: \<open>lerp(a, b, 0) = a\<close> whenever
  \<open>b - a\<close> does not overflow; \<open>lerp(a, b, 1) = b\<close> whenever the difference \<open>b - a\<close> is
  itself a double, so that the subtraction does not round; and \<open>lerp(a, a, t) = a\<close>
  for every finite \<open>t\<close>.
\<close>

theorem lerp_double_interpolation:
  "lerp a b t = dadd a (dmul (dsub b a) t)
   \<and> (representable x \<and> finite_double (dsub b (Finite x))
        \<longrightarrow> lerp (Finite x) b (Finite 0) = Finite x)
   \<and> (representable x \<and> representable y \<and> representable (y - x)
        \<longrightarrow> lerp (Finite x) (Finite y) (Finite 1) = Finite y)
   \<and> (representable x \<longrightarrow> lerp (Finite x) (Finite x) (Finite s) = Finite x)"
proof -
  have zero: "lerp (Finite x) b (Finite 0) = Finite x"
    if "representable x" "finite_double (dsub b (Finite x))"
  proof -
    from that(2) obtain d where "dsub b (Finite x) = Finite d"
      by (rule finite_doubleE)
    with that(1) show ?thesis
      by (rule lerp_at_zero)
  qed
  show ?thesis
    using zero lerp_at_one_exact[of x y] lerp_same[of x s] by (simp add: lerp_def)
qed

theorem lerp_double_interpolation_witness:
  "representable (3602879701896397 / 2 ^ 53)
   \<and> finite_double (dsub (num 0.05) (Finite (3602879701896397 / 2 ^ 53)))
   \<and> lerp (num 0.4) (num 0.05) (Finite 0) = num 0.4
   \<and> representable (5404319552844595 / 2 ^ 53)
   \<and> representable (3152519739159347 / 2 ^ 52)
   \<and> representable (3152519739159347 / 2 ^ 52 - 5404319552844595 / 2 ^ 53)
   \<and> lerp (num 0.6) (num 0.7) (Finite 1) = num 0.7
   \<and> lerp (num 0.4) (num 0.4) (Finite (1 / 4)) = num 0.4"
proof -
  have sub: "dsub (num 0.05) (Finite (3602879701896397 / 2 ^ 53))
             = Finite (- 6305039478318695 / 2 ^ 54)"
    unfolding num_005 by (rule dsub_005_04)
  have fin: "finite_double (dsub (num 0.05) (Finite (3602879701896397 / 2 ^ 53)))"
    unfolding sub
    by (simp, rule representableI[of _ "- 6305039478318695" "- 54"])
       (simp_all add: power_int_minus_divide)
  note inst = lerp_double_interpolation
  have a: "lerp (Finite (3602879701896397 / 2 ^ 53)) (num 0.05) (Finite 0)
           = Finite (3602879701896397 / 2 ^ 53)"
    using inst[where x = "3602879701896397 / 2 ^ 53" and b = "num 0.05"] representable_num_04 fin
    by blast
  have b: "lerp (Finite (5404319552844595 / 2 ^ 53)) (Finite (3152519739159347 / 2 ^ 52)) (Finite 1)
           = Finite (3152519739159347 / 2 ^ 52)"
    using inst[where x = "5404319552844595 / 2 ^ 53" and y = "3152519739159347 / 2 ^ 52"]
      representable_num_06 representable_num_07 representable_num_07_minus_06
    by blast
  have c: "lerp (Finite (3602879701896397 / 2 ^ 53)) (Finite (3602879701896397 / 2 ^ 53))
             (Finite (1 / 4)) = Finite (3602879701896397 / 2 ^ 53)"
    using inst[where x = "3602879701896397 / 2 ^ 53" and s = "1 / 4"] representable_num_04
    by blast
  show ?thesis
    using a b c fin representable_num_04 representable_num_06 representable_num_07
      representable_num_07_minus_06
    by (simp only: num_04 num_06 num_07)
qed

subsection \<open>One timeline for each pair of neighbours\<close>

lemma map_of_nth:
  assumes "distinct (map fst cfgs)" "i < length cfgs"
  shows "map_of cfgs (fst (cfgs ! i)) = Some (snd (cfgs ! i))"
  using assms by (simp add: map_of_is_SomeI)

lemma setupMorphingTransitions_loop_result:
  assumes "distinct (map fst (sectionConfigs sys))"
  shows "setupMorphingTransitions_loop (map fst (sectionConfigs sys)) (int m) (sys, br)
         = (sys, br\<lparr>timelines := timelines br @
                      map (\<lambda>i. \<lparr>st_trigger = sectionElement (snd (sectionConfigs sys ! Suc i)),
                       st_start = ''top bottom'', st_end = ''top center'', st_scrub = 1,
                       st_markers = False,
                       st_fromConfig = snd (sectionConfigs sys ! i),
                       st_toConfig = snd (sectionConfigs sys ! Suc i)\<rparr>)
                        [m ..< length (sectionConfigs sys) - 1],
                    console := console br @
                      map (\<lambda>i. Log (''Morph transition: '' @ fst (sectionConfigs sys ! i) @ '' -> '' @ fst (sectionConfigs sys ! Suc i)))
                        [m ..< length (sectionConfigs sys) - 1]\<rparr>)"
proof (induction "length (sectionConfigs sys) - 1 - m" arbitrary: m br)
  case 0
  then have "[m ..< length (sectionConfigs sys) - 1] = []"
    by simp
  moreover have "\<not> int m < int (length (map fst (sectionConfigs sys))) - 1"
    using 0 by simp
  ultimately show ?case
    by (simp add: setupMorphingTransitions_loop.simps[of _ "int m"])
next
  case (Suc n)
  let ?cfgs = "sectionConfigs sys"
  have m: "m < length ?cfgs - 1"
    using Suc(2) by simp
  then have lt: "int m < int (length (map fst ?cfgs)) - 1"
    by simp
  have from_cfg: "map_of ?cfgs (fst (?cfgs ! m)) = Some (snd (?cfgs ! m))"
    using assms m by (simp add: map_of_nth)
  have to_cfg: "map_of ?cfgs (fst (?cfgs ! Suc m)) = Some (snd (?cfgs ! Suc m))"
    using assms m by (simp add: map_of_nth)
  define br' where "br' = console_log (''Morph transition: '' @ fst (?cfgs ! m) @ '' -> ''
                                        @ fst (?cfgs ! Suc m))
      (br\<lparr>timelines := timelines br @
            [\<lparr>st_trigger = sectionElement (snd (?cfgs ! Suc m)),
              st_start = ''top bottom'', st_end = ''top center'', st_scrub = 1,
              st_markers = False,
              st_fromConfig = snd (?cfgs ! m),
              st_toConfig = snd (?cfgs ! Suc m)\<rparr>]\<rparr>)"
  have step: "createMorphTransition (map fst ?cfgs ! m) (map fst ?cfgs ! Suc m) (sys, br)
              = (sys, br')"
    using m by (simp add: createMorphTransition_def from_cfg to_cfg br'_def)
  have unfold: "setupMorphingTransitions_loop (map fst ?cfgs) (int m) (sys, br)
                = setupMorphingTransitions_loop (map fst ?cfgs) (int (Suc m)) (sys, br')"
    using lt step
    by (simp add: setupMorphingTransitions_loop.simps[of _ "int m"] Let_def nat_add_distrib
        add.commute)
  have range: "[m ..< length ?cfgs - 1] = m # [Suc m ..< length ?cfgs - 1]"
    using m by (simp add: upt_conv_Cons)
  have "n = length ?cfgs - 1 - Suc m"
    using Suc(2) by simp
  from Suc(1)[OF this, of br'] show ?case
    unfolding unfold range by (simp add: br'_def console_log_def)
qed

lemma registerSection_distinct_keys:
  assumes "distinct (map fst (sectionConfigs sys))"
  shows "distinct (map fst (sectionConfigs (fst (registerSection doc sectionId config (sys, br)))))"
  using assms
  by (auto simp add: registerSection_def Let_def distinct_update split: option.splits)

text \<open>
  C7. The keys of the \<open>sectionConfigs\<close> map are distinct, as the keys of a map are
  (\<open>registerSection\<close> keeps them so). With \<open>k\<close> registered sections,
  \<open>setupMorphingTransitions\<close> leaves the system as it is and creates exactly
  \<open>max (k - 1) 0\<close> timelines, none exactly when \<open>k < 2\<close>. The \<open>i\<close>-th of them is the
  one for the \<open>i\<close>-th and the \<open>(i + 1)\<close>-th section in the order of registration: its
  trigger is the element of section \<open>i + 1\<close>, it starts at \<open>top bottom\<close>, ends at
  \<open>top center\<close>, scrubs, and its callbacks are handed the registered entries of
  sections \<open>i\<close> and \<open>i + 1\<close>. The console receives one line for each, naming the two
  section ids, and the closing line. Every timeline created is thus the timeline of
  a pair of neighbours; and where the registered entries differ from one another,
  two registered sections have a timeline from the first to the second if and only
  if the second follows the first immediately.
\<close>

theorem setupMorphingTransitions_consecutive_pairs:
  assumes "distinct (map fst (sectionConfigs sys))"
  shows "\<exists>new. setupMorphingTransitions (sys, br)
           = (sys, br\<lparr>timelines := timelines br @ new,
                      console := console br @
                        map (\<lambda>i. Log (''Morph transition: '' @ fst (sectionConfigs sys ! i) @ '' -> '' @ fst (sectionConfigs sys ! Suc i)))
                          [0 ..< length new]
                        @ [Log ''Morphing transitions configured'']\<rparr>)
     \<and> int (length new) = max (int (length (sectionConfigs sys)) - 1) 0
     \<and> (new = [] \<longleftrightarrow> length (sectionConfigs sys) < 2)
     \<and> (\<forall>i. Suc i < length (sectionConfigs sys) \<longrightarrow>
           new ! i = \<lparr>st_trigger = sectionElement (snd (sectionConfigs sys ! Suc i)),
                       st_start = ''top bottom'', st_end = ''top center'', st_scrub = 1,
                       st_markers = False,
                       st_fromConfig = snd (sectionConfigs sys ! i),
                       st_toConfig = snd (sectionConfigs sys ! Suc i)\<rparr>)
     \<and> (\<forall>t \<in> set new. \<exists>i. Suc i < length (sectionConfigs sys)
           \<and> st_fromConfig t = snd (sectionConfigs sys ! i)
           \<and> st_toConfig t = snd (sectionConfigs sys ! Suc i)
           \<and> st_trigger t = sectionElement (snd (sectionConfigs sys ! Suc i)))
     \<and> (distinct (map snd (sectionConfigs sys)) \<longrightarrow>
          (\<forall>i j. i < length (sectionConfigs sys) \<and> j < length (sectionConfigs sys) \<longrightarrow>
             ((\<exists>t \<in> set new. st_fromConfig t = snd (sectionConfigs sys ! i)
                             \<and> st_toConfig t = snd (sectionConfigs sys ! j))
              \<longleftrightarrow> j = Suc i)))"
proof -
  let ?cfgs = "sectionConfigs sys"
  define T where "T = (\<lambda>i. \<lparr>st_trigger = sectionElement (snd (?cfgs ! Suc i)),
                       st_start = ''top bottom'', st_end = ''top center'', st_scrub = 1,
                       st_markers = False,
                       st_fromConfig = snd (?cfgs ! i),
                       st_toConfig = snd (?cfgs ! Suc i)\<rparr>)"
  define new where "new = map T [0 ..< length ?cfgs - 1]"
  have len: "length new = length ?cfgs - 1"
    by (simp add: new_def)
  have nth: "new ! i = T i" if "Suc i < length ?cfgs" for i
    using that by (simp add: new_def)
  have loop: "setupMorphingTransitions_loop (map fst ?cfgs) 0 (sys, br)
        = (sys, br\<lparr>timelines := timelines br @ new,
                   console := console br @
                     map (\<lambda>i. Log (''Morph transition: '' @ fst (?cfgs ! i) @ '' -> '' @ fst (?cfgs ! Suc i)))
                       [0 ..< length new]\<rparr>)"
    using setupMorphingTransitions_loop_result[OF assms, of 0 br]
    by (simp add: new_def T_def)
  have r1: "setupMorphingTransitions (sys, br)
           = (sys, br\<lparr>timelines := timelines br @ new,
                      console := console br @
                        map (\<lambda>i. Log (''Morph transition: '' @ fst (?cfgs ! i) @ '' -> '' @ fst (?cfgs ! Suc i)))
                          [0 ..< length new]
                        @ [Log ''Morphing transitions configured'']\<rparr>)"
    by (simp add: setupMorphingTransitions_def loop console_log_def)
  have r2: "int (length new) = max (int (length ?cfgs) - 1) 0"
    using len by auto
  have r3: "new = [] \<longleftrightarrow> length ?cfgs < 2"
  proof -
    have "(length new = 0) = (length ?cfgs < 2)"
      using len by linarith
    then show ?thesis
      by simp
  qed
  have r4: "\<forall>i. Suc i < length ?cfgs \<longrightarrow> new ! i = T i"
    using nth by blast
  have r5: "\<forall>t \<in> set new. \<exists>i. Suc i < length ?cfgs
           \<and> st_fromConfig t = snd (?cfgs ! i)
           \<and> st_toConfig t = snd (?cfgs ! Suc i)
           \<and> st_trigger t = sectionElement (snd (?cfgs ! Suc i))"
  proof
    fix t
    assume "t \<in> set new"
    then obtain i where "i < length ?cfgs - 1" "t = T i"
      by (auto simp add: new_def)
    then show "\<exists>i. Suc i < length ?cfgs
           \<and> st_fromConfig t = snd (?cfgs ! i)
           \<and> st_toConfig t = snd (?cfgs ! Suc i)
           \<and> st_trigger t = sectionElement (snd (?cfgs ! Suc i))"
      by (intro exI[of _ i]) (simp add: T_def)
  qed
  have r6: "(\<exists>t \<in> set new. st_fromConfig t = snd (?cfgs ! i) \<and> st_toConfig t = snd (?cfgs ! j))
            \<longleftrightarrow> j = Suc i"
    if d: "distinct (map snd ?cfgs)" and i: "i < length ?cfgs" and j: "j < length ?cfgs"
    for i j
  proof
    assume "\<exists>t \<in> set new. st_fromConfig t = snd (?cfgs ! i) \<and> st_toConfig t = snd (?cfgs ! j)"
    then obtain n where n: "n < length ?cfgs - 1" "snd (?cfgs ! n) = snd (?cfgs ! i)"
      "snd (?cfgs ! Suc n) = snd (?cfgs ! j)"
      by (auto simp add: new_def T_def)
    have "n = i"
      using nth_eq_iff_index_eq[OF d, of n i] n i by simp
    moreover have "Suc n = j"
      using nth_eq_iff_index_eq[OF d, of "Suc n" j] n j by simp
    ultimately have "Suc i = j"
      by simp
    then show "j = Suc i"
      by simp
  next
    assume "j = Suc i"
    then have "T i \<in> set new"
      using j by (auto simp add: new_def)
    then show "\<exists>t \<in> set new. st_fromConfig t = snd (?cfgs ! i) \<and> st_toConfig t = snd (?cfgs ! j)"
      using \<open>j = Suc i\<close> by (intro bexI[of _ "T i"]) (simp_all add: T_def)
  qed
  have r6': "distinct (map snd ?cfgs) \<longrightarrow>
          (\<forall>i j. i < length ?cfgs \<and> j < length ?cfgs \<longrightarrow>
             ((\<exists>t \<in> set new. st_fromConfig t = snd (?cfgs ! i) \<and> st_toConfig t = snd (?cfgs ! j))
              \<longleftrightarrow> j = Suc i))"
    using r6 by blast
  show ?thesis
    by (rule exI[of _ new]) (intro conjI r1 r2 r3 r4[unfolded T_def] r5 r6')
qed

lemma pair_in_set_map:
  "(a, b) \<in> set (map (\<lambda>t. (f t, g t)) xs) \<longleftrightarrow> (\<exists>t \<in> set xs. f t = a \<and> g t = b)"
  by force

lemma registerSections_example:
  "map fst (sectionConfigs (fst (registerSections example_page (example_system, fresh_browser))))
   = [''hero'', ''capabilities'', ''research'']"
  by (simp add: registerSections_def registerSection_def example_page_def example_system_def
      Let_def case_prod_beta)

lemma registerSections_example_elements:
  "map (sectionElement \<circ> snd)
     (sectionConfigs (fst (registerSections example_page (example_system, fresh_browser))))
   = [1, 2, 3]"
  by (simp add: registerSections_def registerSection_def example_page_def example_system_def
      Let_def case_prod_beta spread_config_def)

theorem setupMorphingTransitions_consecutive_pairs_witness:
  "distinct (map fst (sectionConfigs
      (fst (registerSections example_page (example_system, fresh_browser)))))
   \<and> map fst (sectionConfigs (fst (registerSections example_page (example_system, fresh_browser))))
      = [''hero'', ''capabilities'', ''research'']
   \<and> map (\<lambda>t. (sectionElement (st_fromConfig t), st_trigger t, sectionElement (st_toConfig t)))
       (timelines (snd (setupMorphingTransitions
          (fst (registerSections example_page (example_system, fresh_browser)), fresh_browser))))
      = [(1, 2, 2), (2, 3, 3)]
   \<and> console (snd (setupMorphingTransitions
          (fst (registerSections example_page (example_system, fresh_browser)), fresh_browser)))
      = [Log ''Morph transition: hero -> capabilities'',
         Log ''Morph transition: capabilities -> research'',
         Log ''Morphing transitions configured'']
   \<and> distinct (map snd (sectionConfigs
        (fst (registerSections example_page (example_system, fresh_browser)))))
   \<and> (snd (sectionConfigs (fst (registerSections example_page
              (example_system, fresh_browser))) ! 0),
       snd (sectionConfigs (fst (registerSections example_page
              (example_system, fresh_browser))) ! 1))
      \<in> set (map (\<lambda>t. (st_fromConfig t, st_toConfig t))
           (timelines (snd (setupMorphingTransitions
              (fst (registerSections example_page (example_system, fresh_browser)),
               fresh_browser)))))
   \<and> (snd (sectionConfigs (fst (registerSections example_page
              (example_system, fresh_browser))) ! 0),
       snd (sectionConfigs (fst (registerSections example_page
              (example_system, fresh_browser))) ! 2))
      \<notin> set (map (\<lambda>t. (st_fromConfig t, st_toConfig t))
           (timelines (snd (setupMorphingTransitions
              (fst (registerSections example_page (example_system, fresh_browser)),
               fresh_browser)))))"
proof -
  let ?S = "fst (registerSections example_page (example_system, fresh_browser))"
  let ?cfgs = "sectionConfigs ?S"
  have ks: "map fst ?cfgs = [''hero'', ''capabilities'', ''research'']"
    by (rule registerSections_example)
  have es: "map (sectionElement \<circ> snd) ?cfgs = [1, 2, 3]"
    by (rule registerSections_example_elements)
  have d: "distinct (map fst ?cfgs)"
    unfolding ks by simp
  have "distinct (map sectionElement (map snd ?cfgs))"
    using es by simp
  then have ds: "distinct (map snd ?cfgs)"
    by (simp only: distinct_map)
  have k: "length ?cfgs = 3"
    using arg_cong[OF ks, of length] by simp
  have fsts: "fst (?cfgs ! 0) = ''hero''" "fst (?cfgs ! 1) = ''capabilities''"
    "fst (?cfgs ! 2) = ''research''"
    using arg_cong[OF ks, of "\<lambda>l. l ! 0"] arg_cong[OF ks, of "\<lambda>l. l ! 1"]
      arg_cong[OF ks, of "\<lambda>l. l ! 2"] k by simp_all
  have els: "sectionElement (snd (?cfgs ! 0)) = 1" "sectionElement (snd (?cfgs ! 1)) = 2"
    "sectionElement (snd (?cfgs ! 2)) = 3"
    using arg_cong[OF es, of "\<lambda>l. l ! 0"] arg_cong[OF es, of "\<lambda>l. l ! 1"]
      arg_cong[OF es, of "\<lambda>l. l ! 2"] k by simp_all
  obtain new where new:
    "setupMorphingTransitions (?S, fresh_browser)
       = (?S, fresh_browser\<lparr>timelines := timelines fresh_browser @ new,
                      console := console fresh_browser @
                        map (\<lambda>i. Log (''Morph transition: '' @ fst (?cfgs ! i) @ '' -> '' @ fst (?cfgs ! Suc i)))
                          [0 ..< length new]
                        @ [Log ''Morphing transitions configured'']\<rparr>)"
    "int (length new) = max (int (length ?cfgs) - 1) 0"
    "\<forall>i. Suc i < length ?cfgs \<longrightarrow>
           new ! i = \<lparr>st_trigger = sectionElement (snd (?cfgs ! Suc i)),
                       st_start = ''top bottom'', st_end = ''top center'', st_scrub = 1,
                       st_markers = False,
                       st_fromConfig = snd (?cfgs ! i),
                       st_toConfig = snd (?cfgs ! Suc i)\<rparr>"
    "distinct (map snd ?cfgs) \<longrightarrow>
       (\<forall>i j. i < length ?cfgs \<and> j < length ?cfgs \<longrightarrow>
          ((\<exists>t \<in> set new. st_fromConfig t = snd (?cfgs ! i) \<and> st_toConfig t = snd (?cfgs ! j))
           \<longleftrightarrow> j = Suc i))"
    using setupMorphingTransitions_consecutive_pairs[OF d, of fresh_browser] by blast
  have len: "length new = 2"
    using new(2) k by simp
  have n0: "new ! 0 = \<lparr>st_trigger = 2, st_start = ''top bottom'', st_end = ''top center'',
                       st_scrub = 1, st_markers = False,
                       st_fromConfig = snd (?cfgs ! 0), st_toConfig = snd (?cfgs ! 1)\<rparr>"
    using new(3) k els by simp
  have n1: "new ! 1 = \<lparr>st_trigger = 3, st_start = ''top bottom'', st_end = ''top center'',
                       st_scrub = 1, st_markers = False,
                       st_fromConfig = snd (?cfgs ! 1), st_toConfig = snd (?cfgs ! 2)\<rparr>"
    using new(3) k els by (simp add: numeral_2_eq_2)
  have "new = [new ! 0, new ! 1]"
    using len by (intro nth_equalityI) (auto simp add: less_Suc_eq numeral_2_eq_2)
  then have "map (\<lambda>t. (sectionElement (st_fromConfig t), st_trigger t,
                        sectionElement (st_toConfig t))) new
             = map (\<lambda>t. (sectionElement (st_fromConfig t), st_trigger t,
                          sectionElement (st_toConfig t))) [new ! 0, new ! 1]"
    by simp
  also have "\<dots> = [(1, 2, 2), (2, 3, 3)]"
    unfolding n0 n1 using els by simp
  finally have tl: "map (\<lambda>t. (sectionElement (st_fromConfig t), st_trigger t,
                            sectionElement (st_toConfig t))) new = [(1, 2, 2), (2, 3, 3)]" .
  have upt: "[0 ..< length new] = [0, 1]"
    unfolding len by (simp add: upt_rec numeral_2_eq_2)
  have tls: "timelines (snd (setupMorphingTransitions (?S, fresh_browser))) = new"
    unfolding new(1) by (simp add: fresh_browser_def)
  have pair: "(snd (?cfgs ! i), snd (?cfgs ! j))
                \<in> set (map (\<lambda>t. (st_fromConfig t, st_toConfig t)) new) \<longleftrightarrow> j = Suc i"
    if "i < 3" "j < 3" for i j
  proof -
    have "(snd (?cfgs ! i), snd (?cfgs ! j)) \<in> set (map (\<lambda>t. (st_fromConfig t, st_toConfig t)) new)
          \<longleftrightarrow> (\<exists>t \<in> set new. st_fromConfig t = snd (?cfgs ! i) \<and> st_toConfig t = snd (?cfgs ! j))"
      by (rule pair_in_set_map)
    then show ?thesis
      using new(4) ds that k by simp
  qed
  have adjacent: "(snd (?cfgs ! 0), snd (?cfgs ! 1))
                    \<in> set (map (\<lambda>t. (st_fromConfig t, st_toConfig t)) new)"
    using pair[of 0 1] by simp
  have apart: "(snd (?cfgs ! 0), snd (?cfgs ! 2))
                 \<notin> set (map (\<lambda>t. (st_fromConfig t, st_toConfig t)) new)"
    using pair[of 0 2] by simp
  have cons: "console (snd (setupMorphingTransitions (?S, fresh_browser)))
      = [Log ''Morph transition: hero -> capabilities'',
         Log ''Morph transition: capabilities -> research'',
         Log ''Morphing transitions configured'']"
    unfolding new(1) upt using fsts by (simp add: fresh_browser_def numeral_2_eq_2)
  show ?thesis
    unfolding tls by (intro conjI d ks tl cons[unfolded tls] ds adjacent apart)
qed

subsection \<open>Morphing the visualizer\<close>

lemma num_unit_interval:
  assumes "0 \<le> e" "e \<le> 1"
  obtains r where "num e = Finite r" "representable r" "0 \<le> r" "r \<le> 1"
proof -
  have b: "0 \<le> round_real e" "round_real e \<le> 1"
    using round_real_unit_interval[OF assms] .
  have "(2 :: real) powi 0 < 2 powi 1024"
    by (rule power_int_strict_increasing) simp_all
  then have fin: "\<bar>round_real e\<bar> < 2 powi 1024"
    using b by simp
  show thesis
    using that[OF round_double_finite[OF fin] round_real_representable_result[OF fin] b] .
qed

lemma lerp_eased:
  assumes t: "0 \<le> t" "t \<le> 1" and ld: "lerp_defined a b"
  shows "finite_double (lerp a b (num (easeInOutCubic t)))
         \<and> dbetween a (lerp a b (num (easeInOutCubic t))) (lerp a b (Finite 1))
         \<and> (t = 0 \<longrightarrow> lerp a b (num (easeInOutCubic t)) = a)
         \<and> (t = 1 \<longrightarrow> lerp a b (num (easeInOutCubic t)) = lerp a b (Finite 1))"
proof -
  from ld obtain x where x: "a = Finite x" "representable x"
    unfolding lerp_defined_def by (blast elim: finite_doubleE)
  from ld obtain y where y: "b = Finite y"
    unfolding lerp_defined_def by (blast elim: finite_doubleE)
  from ld obtain d where d: "dsub (Finite y) (Finite x) = Finite d"
    unfolding lerp_defined_def x(1) y by (blast elim: finite_doubleE)
  from ld obtain l where l: "lerp (Finite x) (Finite y) (Finite 1) = Finite l"
    unfolding lerp_defined_def x(1) y by (blast elim: finite_doubleE)
  obtain r where r: "num (easeInOutCubic t) = Finite r" "representable r" "0 \<le> r" "r \<le> 1"
    using easeInOutCubic_range[OF t] num_unit_interval by blast
  obtain v where v: "lerp (Finite x) (Finite y) (Finite r) = Finite v" "representable v"
    "min x l \<le> v" "v \<le> max x l"
    using lerp_range[OF x(2) d l r(2,3,4)] by blast
  have zero: "lerp a b (num (easeInOutCubic t)) = a" if "t = 0"
  proof -
    have "easeInOutCubic t = 0"
      using that by (simp add: easeInOutCubic_def)
    then show ?thesis
      using lerp_at_zero[OF x(2) d] by (simp add: x(1) y)
  qed
  have one: "lerp a b (num (easeInOutCubic t)) = lerp a b (Finite 1)" if "t = 1"
  proof -
    have "easeInOutCubic t = 1"
      using that by (simp add: easeInOutCubic_def)
    then show ?thesis
      by (simp add: round_double_representable)
  qed
  have "dbetween (Finite x) (Finite v) (Finite l)"
    using v(3,4) by (auto simp add: dbetween_def min_def max_def split: if_splits)
  then show ?thesis
    using v(1,2) zero one by (simp add: x(1) y r(1) l)
qed

lemma morphVisualizer_no_params:
  assumes "system_params sys = None"
  shows "morphVisualizer fromState toState t (sys, br) = (sys, br)"
  using assms by (simp add: morphVisualizer_def system_params_def split: option.splits)

lemma morphVisualizer_params:
  assumes "system_params sys = Some ps"
  shows "system_params (fst (morphVisualizer fromState toState t (sys, br)))
         = Some (ps\<lparr>geometry := lerp (geometry fromState) (geometry toState)
                                 (num (easeInOutCubic t)),
                    hue := lerp (hue fromState) (hue toState) (num (easeInOutCubic t)),
                    intensity := lerp (intensity fromState) (intensity toState)
                                   (num (easeInOutCubic t)),
                    chaos := lerp (chaos fromState) (chaos toState) (num (easeInOutCubic t)),
                    gridDensity := lerp (gridDensity fromState) (gridDensity toState)
                                     (num (easeInOutCubic t)),
                    morphFactor := sin (easeInOutCubic t * pi),
                    rot4dXW := rot4dXW ps + 0.002 * easeInOutCubic t,
                    rot4dYW := rot4dYW ps + 0.0015 * easeInOutCubic t\<rparr>)
       \<and> snd (morphVisualizer fromState toState t (sys, br)) = br"
  using assms
  by (auto simp add: morphVisualizer_def system_params_def Let_def split: option.splits)

lemma example_system_params: "system_params example_system = Some zero_params"
  by (simp add: system_params_def example_system_def working_visualizer_def)

lemma not_interpolates_morphFactor: "\<not> interpolates fromState toState ps MorphFactor"
  by (simp add: interpolates_def)

lemma chaos_research_state: "chaos research_state = Finite (3602879701896397 / 2 ^ 53)"
proof -
  have "chaos research_state = num 0.4"
    by (simp add: research_state_def)
  then show ?thesis
    by (simp only: num_04)
qed

lemma chaos_contact_state: "chaos contact_state = Finite (3602879701896397 / 2 ^ 56)"
proof -
  have "chaos contact_state = num 0.05"
    by (simp add: contact_state_def)
  then show ?thesis
    by (simp only: num_005)
qed

lemma morphVisualizer_chaos_research_contact:
  "map_option chaos (system_params (fst (morphVisualizer research_state contact_state 1
      (example_system, fresh_browser)))) = Some (Finite (900719925474099 / 2 ^ 54))"
proof -
  have e: "num (easeInOutCubic 1) = Finite 1"
    by (simp add: easeInOutCubic_def round_double_representable)
  have "lerp (chaos research_state) (chaos contact_state) (Finite 1)
        = lerp (num 0.4) (num 0.05) (Finite 1)"
    by (simp only: chaos_research_state chaos_contact_state num_04 num_005)
  then have "lerp (chaos research_state) (chaos contact_state) (num (easeInOutCubic 1))
        = Finite (900719925474099 / 2 ^ 54)"
    by (simp only: e lerp_chaos_research_contact)
  then show ?thesis
    by (simp add: morphVisualizer_params[OF example_system_params])
qed

text \<open>
  C2, as stated, fails twice. First, \<open>morphVisualizer\<close> also writes \<open>morphFactor\<close>,
  \<open>rot4dXW\<close> and \<open>rot4dYW\<close>, which no preset has: half way from the hero preset to the
  capabilities preset it sets \<open>morphFactor\<close> to 1, so not every written parameter
  lies between a from-value and a to-value. Second, the interpolated fields are
  computed in doubles: from the research preset (\<open>chaos: 0.4\<close>) to the contact preset
  (\<open>chaos: 0.05\<close>) at \<open>t = 1\<close> the \<open>chaos\<close> written is \<open>0.04999999999999999\<close>, which is
  not the to-value and lies below both presets.
\<close>

theorem morphVisualizer_writes_beyond_presets:
  "map_option morphFactor (system_params (fst (morphVisualizer hero_state capabilities_state
      (1 / 2) (example_system, fresh_browser)))) = Some 1
   \<and> preset_value hero_state MorphFactor = None
   \<and> preset_value capabilities_state MorphFactor = None
   \<and> \<not> list_all
         (interpolates hero_state capabilities_state
            (the (system_params (fst (morphVisualizer hero_state capabilities_state (1 / 2)
               (example_system, fresh_browser))))))
         written_params
   \<and> map_option chaos (system_params (fst (morphVisualizer research_state contact_state 1
        (example_system, fresh_browser)))) = Some (Finite (900719925474099 / 2 ^ 54))
   \<and> chaos research_state = Finite (3602879701896397 / 2 ^ 53)
   \<and> chaos contact_state = Finite (3602879701896397 / 2 ^ 56)
   \<and> map_option chaos (system_params (fst (morphVisualizer research_state contact_state 1
        (example_system, fresh_browser)))) \<noteq> Some (chaos contact_state)
   \<and> \<not> dbetween (chaos research_state) (Finite (900719925474099 / 2 ^ 54))
         (chaos contact_state)"
proof -
  have e: "easeInOutCubic (1 / 2) = 1 / 2"
    by (simp add: easeInOutCubic_def)
  have a: "map_option morphFactor (system_params (fst (morphVisualizer hero_state
      capabilities_state (1 / 2) (example_system, fresh_browser)))) = Some 1"
    by (simp add: morphVisualizer_params[OF example_system_params] e)
  have b: "\<not> list_all
         (interpolates hero_state capabilities_state
            (the (system_params (fst (morphVisualizer hero_state capabilities_state (1 / 2)
               (example_system, fresh_browser))))))
         written_params"
    by (simp add: written_params_def not_interpolates_morphFactor)
  have c: "map_option chaos (system_params (fst (morphVisualizer research_state contact_state 1
        (example_system, fresh_browser)))) \<noteq> Some (chaos contact_state)"
    unfolding morphVisualizer_chaos_research_contact chaos_contact_state by simp
  have d: "\<not> dbetween (chaos research_state) (Finite (900719925474099 / 2 ^ 54))
         (chaos contact_state)"
    unfolding chaos_research_state chaos_contact_state by (simp add: dbetween_def)
  show ?thesis
    by (intro conjI a b c d morphVisualizer_chaos_research_contact chaos_research_state
        chaos_contact_state) simp_all
qed

text \<open>
  C2, amended. For every pair of presets and every morph progress \<open>t\<close> in \<open>[0, 1]\<close>:
  without a parameter object \<open>morphVisualizer\<close> writes nothing. With one, take any
  of \<open>geometry\<close>, \<open>hue\<close>, \<open>intensity\<close>, \<open>chaos\<close> and \<open>gridDensity\<close>, with from-value
  \<open>a\<close> and to-value \<open>b\<close>, both finite and such that neither \<open>b - a\<close> nor
  \<open>a + (b - a)\<close> overflows. The value written is a finite double between \<open>a\<close> and
  \<open>lerp(a, b, 1)\<close>; it is \<open>a\<close> at \<open>t = 0\<close> and \<open>lerp(a, b, 1)\<close> at \<open>t = 1\<close>; and
  \<open>lerp(a, b, 1)\<close> is the to-value \<open>b\<close> whenever the difference \<open>b - a\<close> is itself a
  double. The statement is about these five parameters only: \<open>morphFactor\<close>,
  \<open>rot4dXW\<close> and \<open>rot4dYW\<close>, which \<open>morphVisualizer\<close> writes as well, have no
  preset value to lie between.
\<close>

theorem morphVisualizer_interpolates_presets:
  assumes "0 \<le> t" and "t \<le> 1"
  shows "case system_params sys of
           None \<Rightarrow> morphVisualizer fromState toState t (sys, br) = (sys, br)
         | Some ps \<Rightarrow>
             (\<exists>ps'. system_params (fst (morphVisualizer fromState toState t (sys, br))) = Some ps'
                \<and> snd (morphVisualizer fromState toState t (sys, br)) = br
                \<and> (\<forall>k \<in> set [Geometry, Hue, Intensity, Chaos, GridDensity]. \<forall>a b.
                     preset_value fromState k = Some a \<and> preset_value toState k = Some b
                     \<and> lerp_defined a b \<longrightarrow>
                       finite_double (param_value ps' k)
                       \<and> dbetween a (param_value ps' k) (lerp a b (Finite 1))
                       \<and> (t = 0 \<longrightarrow> param_value ps' k = a)
                       \<and> (t = 1 \<longrightarrow> param_value ps' k = lerp a b (Finite 1))
                       \<and> (\<forall>x y. a = Finite x \<and> b = Finite y \<and> representable (y - x)
                             \<longrightarrow> lerp a b (Finite 1) = b)))"
proof (cases "system_params sys")
  case None
  then show ?thesis
    by (simp add: morphVisualizer_no_params)
next
  case (Some ps)
  define ps' where "ps' = ps\<lparr>geometry := lerp (geometry fromState) (geometry toState)
                                 (num (easeInOutCubic t)),
                    hue := lerp (hue fromState) (hue toState) (num (easeInOutCubic t)),
                    intensity := lerp (intensity fromState) (intensity toState)
                                   (num (easeInOutCubic t)),
                    chaos := lerp (chaos fromState) (chaos toState) (num (easeInOutCubic t)),
                    gridDensity := lerp (gridDensity fromState) (gridDensity toState)
                                     (num (easeInOutCubic t)),
                    morphFactor := sin (easeInOutCubic t * pi),
                    rot4dXW := rot4dXW ps + 0.002 * easeInOutCubic t,
                    rot4dYW := rot4dYW ps + 0.0015 * easeInOutCubic t\<rparr>"
  have res: "system_params (fst (morphVisualizer fromState toState t (sys, br))) = Some ps'"
    "snd (morphVisualizer fromState toState t (sys, br)) = br"
    using morphVisualizer_params[OF Some, of fromState toState t br] by (simp_all add: ps'_def)
  have exact: "lerp a b (Finite 1) = b"
    if "lerp_defined a b" "a = Finite x" "b = Finite y" "representable (y - x)" for a b x y
    using that lerp_at_one_exact[of x y] by (simp add: lerp_defined_def)
  have field: "finite_double (param_value ps' k)
               \<and> dbetween a (param_value ps' k) (lerp a b (Finite 1))
               \<and> (t = 0 \<longrightarrow> param_value ps' k = a)
               \<and> (t = 1 \<longrightarrow> param_value ps' k = lerp a b (Finite 1))
               \<and> (\<forall>x y. a = Finite x \<and> b = Finite y \<and> representable (y - x)
                     \<longrightarrow> lerp a b (Finite 1) = b)"
    if k: "k \<in> set [Geometry, Hue, Intensity, Chaos, GridDensity]"
      and a: "preset_value fromState k = Some a" and b: "preset_value toState k = Some b"
      and ld: "lerp_defined a b" for k a b
  proof -
    have "param_value ps' k = lerp a b (num (easeInOutCubic t))"
      using k a b by (auto simp add: ps'_def)
    then show ?thesis
      using lerp_eased[OF assms ld] exact[OF ld] by simp
  qed
  show ?thesis
    unfolding Some option.case
    by (rule exI[of _ ps']) (use res field in blast)
qed

theorem morphVisualizer_interpolates_presets_witness:
  "(0 :: real) \<le> 0 \<and> (0 :: real) \<le> 1 \<and> (1 :: real) \<le> 1
   \<and> system_params example_system = Some zero_params
   \<and> Intensity \<in> set [Geometry, Hue, Intensity, Chaos, GridDensity]
   \<and> preset_value hero_state Intensity = Some (num 0.6)
   \<and> preset_value capabilities_state Intensity = Some (num 0.7)
   \<and> lerp_defined (num 0.6) (num 0.7)
   \<and> map_option intensity (system_params (fst (morphVisualizer hero_state capabilities_state 0
          (example_system, fresh_browser)))) = Some (num 0.6)
   \<and> map_option intensity (system_params (fst (morphVisualizer hero_state capabilities_state 1
          (example_system, fresh_browser)))) = Some (num 0.7)"
proof -
  have h0: "(0 :: real) \<le> 0" and h1: "(0 :: real) \<le> 1" and h2: "(1 :: real) \<le> 1"
    by simp_all
  have k: "Intensity \<in> set [Geometry, Hue, Intensity, Chaos, GridDensity]"
    by simp
  have pa: "preset_value hero_state Intensity = Some (num 0.6)"
    by (simp add: hero_state_def)
  have pb: "preset_value capabilities_state Intensity = Some (num 0.7)"
    by (simp add: capabilities_state_def)
  have one: "lerp (num 0.6) (num 0.7) (Finite 1) = num 0.7"
    unfolding num_06 num_07
    by (rule lerp_at_one_exact[OF representable_num_06 representable_num_07
          representable_num_07_minus_06])
  have sub: "dsub (num 0.7) (num 0.6)
             = Finite (3152519739159347 / 2 ^ 52 - 5404319552844595 / 2 ^ 53)"
    unfolding num_06 num_07
    using round_double_representable[OF representable_num_07_minus_06] by (simp add: dsub_def)
  have ld: "lerp_defined (num 0.6) (num 0.7)"
    unfolding lerp_defined_def one sub unfolding num_06 num_07
    using representable_num_06 representable_num_07 representable_num_07_minus_06 by simp
  note inst = morphVisualizer_interpolates_presets[where sys = example_system
      and fromState = hero_state and toState = capabilities_state and br = fresh_browser]
  obtain p0 where p0: "system_params (fst (morphVisualizer hero_state capabilities_state 0
          (example_system, fresh_browser))) = Some p0" "param_value p0 Intensity = num 0.6"
    using inst[OF h0 h1] k pa pb ld unfolding example_system_params option.case by blast
  obtain p1 where p1: "system_params (fst (morphVisualizer hero_state capabilities_state 1
          (example_system, fresh_browser))) = Some p1"
      "param_value p1 Intensity = lerp (num 0.6) (num 0.7) (Finite 1)"
    using inst[OF h1 h2] k pa pb ld unfolding example_system_params option.case by blast
  have r0: "map_option intensity (system_params (fst (morphVisualizer hero_state
      capabilities_state 0 (example_system, fresh_browser)))) = Some (num 0.6)"
    unfolding p0(1) using p0(2) by simp
  have r1: "map_option intensity (system_params (fst (morphVisualizer hero_state
      capabilities_state 1 (example_system, fresh_browser)))) = Some (num 0.7)"
    unfolding p1(1) using p1(2) one by simp
  show ?thesis
    by (intro conjI h0 h1 h2 example_system_params k pa pb ld r0 r1)
qed

subsection \<open>What a frame writes\<close>

lemma gsap_sets_fold_plain:
  "gsap_sets (fold (\<lambda>x. gsap_set x v) xs br) = gsap_sets br @ map (\<lambda>x. (x, v)) xs"
  by (induction xs arbitrary: br) (auto simp add: gsap_set_def)

lemma assembleCard_sets:
  "gsap_sets (assembleCard doc c i p br)
   = gsap_sets br @ gsap_sets (assembleCard doc c i p fresh_browser)"
  by (simp add: assembleCard_def Let_def gsap_sets_fold_plain gsap_set_def fresh_browser_def)

lemma assembleCards_fold_sets:
  "gsap_sets (fold (\<lambda>(i, c). assembleCard doc c i p) xs br)
   = gsap_sets br @ gsap_sets (fold (\<lambda>(i, c). assembleCard doc c i p) xs fresh_browser)"
proof (induction xs arbitrary: br)
  case Nil
  show ?case by (simp add: fresh_browser_def)
next
  case (Cons x xs)
  obtain i c where x: "x = (i, c)"
    by (cases x)
  have "gsap_sets (fold (\<lambda>(i, c). assembleCard doc c i p) (x # xs) br)
        = gsap_sets (assembleCard doc c i p br)
          @ gsap_sets (fold (\<lambda>(i, c). assembleCard doc c i p) xs fresh_browser)"
    using Cons.IH[of "assembleCard doc c i p br"] by (simp add: x)
  moreover have "gsap_sets (fold (\<lambda>(i, c). assembleCard doc c i p) (x # xs) fresh_browser)
        = gsap_sets (assembleCard doc c i p fresh_browser)
          @ gsap_sets (fold (\<lambda>(i, c). assembleCard doc c i p) xs fresh_browser)"
    using Cons.IH[of "assembleCard doc c i p fresh_browser"] by (simp add: x)
  ultimately show ?case
    using assembleCard_sets[of doc c i p br] by simp
qed

lemma disassembleCards_sets_snd:
  "gsap_sets (snd (disassembleCards random cs p s)) =
     gsap_sets (snd s) @ map (\<lambda>(i, c). (c, disassembleCard random (length cs) i p))
                           (enumerate 0 cs)"
  using disassembleCards_sets[of random cs p "fst s" "snd s"] by simp

lemma snd_morphVisualizer: "snd (morphVisualizer a b t s) = snd s"
  by (simp add: morphVisualizer_def case_prod_beta Let_def split: option.splits)

lemma assembleCards_sets_snd:
  "gsap_sets (snd (assembleCards doc cs p s))
   = gsap_sets (snd s) @ gsap_sets (fold (\<lambda>(i, c). assembleCard doc c i p) (enumerate 0 cs)
                                      fresh_browser)"
  using assembleCards_fold_sets[of doc p "enumerate 0 cs" "snd s"]
  by (simp add: assembleCards_def case_prod_beta)

lemma onTransitionProgress_sets:
  "gsap_sets (snd (onTransitionProgress doc random fromConfig toConfig p (sys, br)))
   = gsap_sets br @
          (if p < 0.4
           then map (\<lambda>(i, c). (c, disassembleCard random (length (cards fromConfig)) i (p / 0.4)))
                  (enumerate 0 (cards fromConfig))
           else [])
     @ (if 0.6 \<le> p
        then gsap_sets (fold (\<lambda>(i, c). assembleCard doc c i ((p - 0.6) / 0.4))
                          (enumerate 0 (cards toConfig)) fresh_browser)
        else [])"
  by (simp add: onTransitionProgress_def transition_calls_def Let_def disassembleCards_sets_snd
      snd_morphVisualizer assembleCards_sets_snd)

lemma disassembleCard_rotation:
  "disassembleCard random1 n i q
   = (disassembleCard random2 n i q)
       \<lparr>tw_rotation := Some (max 0 (min 1 (q - real i * 0.1)) * (random1 i - 0.5) * 45)\<rparr>"
  by (simp add: disassembleCard_def Let_def)

lemma fst_cards_handlers:
  "fst (disassembleCards random cs p s) = fst s" "fst (assembleCards doc cs p s) = fst s"
  by (simp_all add: disassembleCards_def assembleCards_def case_prod_beta)

lemma fst_morphVisualizer:
  "fst (morphVisualizer a b t s) = fst (morphVisualizer a b t (fst s, br))"
  by (simp add: morphVisualizer_def case_prod_beta Let_def split: option.splits)

lemma fst_onTransitionProgress:
  "fst (onTransitionProgress doc random fromConfig toConfig p (sys, br))
   = (if 0.3 \<le> p \<and> p \<le> 0.7
      then fst (morphVisualizer (visualizerState fromConfig) (visualizerState toConfig)
                  ((p - 0.3) / 0.4) (sys, br))
      else sys)"
  using fst_morphVisualizer[of "visualizerState fromConfig" "visualizerState toConfig"
      "(p - 0.3) / 0.4" "disassembleCards random (cards fromConfig) (p / 0.4) (sys, br)" br]
  by (simp add: onTransitionProgress_def transition_calls_def Let_def fst_cards_handlers)

text \<open>
  C3, as stated, fails. With the same configurations and the same progress one half,
  a second call of \<open>onTransitionProgress\<close> leaves \<open>rot4dXW\<close> at 0.002 where the first
  left it at 0.001: the rotation carries over from frame to frame. And with the same
  configurations and progress one fifth, the \<open>rotation\<close> written to the cards is
  \<open>-11.25\<close> and \<open>-9\<close> when \<open>Math.random()\<close> returns 0, and 0 when it returns one half.
\<close>

theorem onTransitionProgress_not_a_function_of_progress:
  "map_option rot4dXW (system_params (fst
      (onTransitionProgress example_page (\<lambda>i. 0) hero_config capabilities_config (1 / 2)
         (example_system, fresh_browser))))
     = Some (1 / 1000)
   \<and> map_option rot4dXW (system_params (fst
      (onTransitionProgress example_page (\<lambda>i. 0) hero_config capabilities_config (1 / 2)
         (onTransitionProgress example_page (\<lambda>i. 0) hero_config capabilities_config (1 / 2)
            (example_system, fresh_browser)))))
     = Some (2 / 1000)
   \<and> map (\<lambda>w. (fst w, tw_rotation (snd w))) (gsap_sets (snd
      (onTransitionProgress example_page (\<lambda>i. 0) hero_config capabilities_config (1 / 5)
         (example_system, fresh_browser))))
     = [(10, Some (- 45 / 4)), (11, Some (- 9))]
   \<and> map (\<lambda>w. (fst w, tw_rotation (snd w))) (gsap_sets (snd
      (onTransitionProgress example_page (\<lambda>i. 1 / 2) hero_config capabilities_config (1 / 5)
         (example_system, fresh_browser))))
     = [(10, Some 0), (11, Some 0)]"
proof -
  have e: "easeInOutCubic (1 / 2) = 1 / 2"
    by (simp add: easeInOutCubic_def)
  have morph: "onTransitionProgress doc random hero_config capabilities_config (1 / 2) s
               = morphVisualizer hero_state capabilities_state (1 / 2) s" for doc random s
    by (simp add: onTransitionProgress_def transition_calls_def hero_config_def
        capabilities_config_def)
  have scatter: "onTransitionProgress doc random hero_config capabilities_config (1 / 5) s
               = disassembleCards random [10, 11] (1 / 2) s" for doc random s
    by (simp add: onTransitionProgress_def transition_calls_def hero_config_def
        capabilities_config_def)
  define s1 where "s1 = morphVisualizer hero_state capabilities_state (1 / 2)
                          (example_system, fresh_browser)"
  obtain ps1 where ps1: "system_params (fst s1) = Some ps1" "rot4dXW ps1 = 1 / 1000"
    using morphVisualizer_params[OF example_system_params, of hero_state capabilities_state
        "1 / 2" fresh_browser]
    by (simp add: s1_def e zero_params_def)
  have first: "map_option rot4dXW (system_params (fst s1)) = Some (1 / 1000)"
    using ps1 by simp
  have "map_option rot4dXW (system_params (fst
          (morphVisualizer hero_state capabilities_state (1 / 2) (fst s1, snd s1))))
        = Some (2 / 1000)"
    using morphVisualizer_params[OF ps1(1), of hero_state capabilities_state "1 / 2" "snd s1"]
    by (simp add: e ps1(2))
  then have second: "map_option rot4dXW (system_params (fst
          (morphVisualizer hero_state capabilities_state (1 / 2) s1))) = Some (2 / 1000)"
    by simp
  have rot: "map (\<lambda>w. (fst w, tw_rotation (snd w)))
               (gsap_sets (snd (disassembleCards random [10, 11] (1 / 2)
                  (example_system, fresh_browser))))
             = [(10, Some (1 / 2 * (random 0 - 1 / 2) * 45)),
                (11, Some (2 / 5 * (random 1 - 1 / 2) * 45))]" for random
    by (simp add: disassembleCards_def gsap_set_def fresh_browser_def disassembleCard_def Let_def)
  show ?thesis
    using first second by (simp add: morph scatter rot s1_def)
qed

text \<open>
  C3, amended. Take two calls of \<open>onTransitionProgress\<close> on the same page with the
  same from-config, to-config and progress, from any two states and with any two
  sequences of random numbers. Each makes the \<open>gsap.set\<close> calls of \<open>disassembleCards\<close>
  (when \<open>p < 0.4\<close>) and then those of \<open>assembleCards\<close>. The calls of \<open>assembleCards\<close>
  are the same in both, so from \<open>p = 0.4\<close> on the two calls write the same values to
  the cards. A call of \<open>disassembleCards\<close> for a card differs between the two at most
  in the \<open>rotation\<close> it writes, which is the card's adjusted progress times
  \<open>(Math.random() - 0.5) * 45\<close>. Inside the visualizer's window, with a parameter
  object in both states, the two calls leave the same \<open>geometry\<close>, \<open>hue\<close>,
  \<open>intensity\<close>, \<open>chaos\<close>, \<open>gridDensity\<close> and \<open>morphFactor\<close>, and each adds the same
  amounts to its own previous \<open>rot4dXW\<close> and \<open>rot4dYW\<close>. Outside the window the system
  is not changed.
\<close>

theorem onTransitionProgress_frame_outputs:
  "(\<exists>assembled.
      gsap_sets (snd (onTransitionProgress doc random1 fromConfig toConfig p (sys1, br1)))
        = gsap_sets br1 @
          (if p < 0.4
           then map (\<lambda>(i, c). (c, disassembleCard random1 (length (cards fromConfig)) i (p / 0.4)))
                  (enumerate 0 (cards fromConfig))
           else [])
          @ assembled
      \<and> gsap_sets (snd (onTransitionProgress doc random2 fromConfig toConfig p (sys2, br2)))
        = gsap_sets br2 @
          (if p < 0.4
           then map (\<lambda>(i, c). (c, disassembleCard random2 (length (cards fromConfig)) i (p / 0.4)))
                  (enumerate 0 (cards fromConfig))
           else [])
          @ assembled)
   \<and> disassembleCard random1 n i q
       = (disassembleCard random2 n i q)
           \<lparr>tw_rotation := Some (max 0 (min 1 (q - real i * 0.1)) * (random1 i - 0.5) * 45)\<rparr>
   \<and> (0.3 \<le> p \<and> p \<le> 0.7 \<and> system_params sys1 = Some ps1 \<and> system_params sys2 = Some ps2
        \<longrightarrow>
        (\<exists>q1 q2.
           system_params (fst (onTransitionProgress doc random1 fromConfig toConfig p (sys1, br1)))
             = Some q1
         \<and> system_params (fst (onTransitionProgress doc random2 fromConfig toConfig p (sys2, br2)))
             = Some q2
         \<and> geometry q1 = geometry q2 \<and> hue q1 = hue q2 \<and> intensity q1 = intensity q2
         \<and> chaos q1 = chaos q2 \<and> gridDensity q1 = gridDensity q2
         \<and> morphFactor q1 = morphFactor q2
         \<and> rot4dXW q1 = rot4dXW ps1 + 0.002 * easeInOutCubic ((p - 0.3) / 0.4)
         \<and> rot4dXW q2 = rot4dXW ps2 + 0.002 * easeInOutCubic ((p - 0.3) / 0.4)
         \<and> rot4dYW q1 = rot4dYW ps1 + 0.0015 * easeInOutCubic ((p - 0.3) / 0.4)
         \<and> rot4dYW q2 = rot4dYW ps2 + 0.0015 * easeInOutCubic ((p - 0.3) / 0.4)))
   \<and> (\<not> (0.3 \<le> p \<and> p \<le> 0.7) \<longrightarrow>
        fst (onTransitionProgress doc random1 fromConfig toConfig p (sys1, br1)) = sys1
        \<and> fst (onTransitionProgress doc random2 fromConfig toConfig p (sys2, br2)) = sys2)"
proof -
  have cards_part: "\<exists>assembled.
      gsap_sets (snd (onTransitionProgress doc random1 fromConfig toConfig p (sys1, br1)))
        = gsap_sets br1 @
          (if p < 0.4
           then map (\<lambda>(i, c). (c, disassembleCard random1 (length (cards fromConfig)) i (p / 0.4)))
                  (enumerate 0 (cards fromConfig))
           else [])
          @ assembled
      \<and> gsap_sets (snd (onTransitionProgress doc random2 fromConfig toConfig p (sys2, br2)))
        = gsap_sets br2 @
          (if p < 0.4
           then map (\<lambda>(i, c). (c, disassembleCard random2 (length (cards fromConfig)) i (p / 0.4)))
                  (enumerate 0 (cards fromConfig))
           else [])
          @ assembled"
    by (rule exI[of _ "if 0.6 \<le> p
        then gsap_sets (fold (\<lambda>(i, c). assembleCard doc c i ((p - 0.6) / 0.4))
                          (enumerate 0 (cards toConfig)) fresh_browser)
        else []"])
      (simp only: onTransitionProgress_sets append_assoc simp_thms)
  have params_part: "\<exists>q1 q2.
           system_params (fst (onTransitionProgress doc random1 fromConfig toConfig p (sys1, br1)))
             = Some q1
         \<and> system_params (fst (onTransitionProgress doc random2 fromConfig toConfig p (sys2, br2)))
             = Some q2
         \<and> geometry q1 = geometry q2 \<and> hue q1 = hue q2 \<and> intensity q1 = intensity q2
         \<and> chaos q1 = chaos q2 \<and> gridDensity q1 = gridDensity q2
         \<and> morphFactor q1 = morphFactor q2
         \<and> rot4dXW q1 = rot4dXW ps1 + 0.002 * easeInOutCubic ((p - 0.3) / 0.4)
         \<and> rot4dXW q2 = rot4dXW ps2 + 0.002 * easeInOutCubic ((p - 0.3) / 0.4)
         \<and> rot4dYW q1 = rot4dYW ps1 + 0.0015 * easeInOutCubic ((p - 0.3) / 0.4)
         \<and> rot4dYW q2 = rot4dYW ps2 + 0.0015 * easeInOutCubic ((p - 0.3) / 0.4)"
    if window: "0.3 \<le> p \<and> p \<le> 0.7"
      and sp: "system_params sys1 = Some ps1" "system_params sys2 = Some ps2"
    using window morphVisualizer_params[OF sp(1), of "visualizerState fromConfig"
        "visualizerState toConfig" "(p - 0.3) / 0.4" br1]
      morphVisualizer_params[OF sp(2), of "visualizerState fromConfig"
        "visualizerState toConfig" "(p - 0.3) / 0.4" br2]
    by (simp add: fst_onTransitionProgress)
  have outside: "fst (onTransitionProgress doc random1 fromConfig toConfig p (sys1, br1)) = sys1
        \<and> fst (onTransitionProgress doc random2 fromConfig toConfig p (sys2, br2)) = sys2"
    if "\<not> (0.3 \<le> p \<and> p \<le> 0.7)"
    using that by (auto simp add: fst_onTransitionProgress)
  from cards_part disassembleCard_rotation[of random1 n i q random2] params_part outside
  show ?thesis
    by blast
qed

theorem onTransitionProgress_frame_outputs_witness:
  "(0.3 :: real) \<le> 1 / 2 \<and> (1 / 2 :: real) \<le> 0.7
   \<and> system_params example_system = Some zero_params
   \<and> system_params
         (example_system\<lparr>visualizer :=
            Some (working_visualizer\<lparr>params := Some (zero_params\<lparr>rot4dXW := 5\<rparr>)\<rparr>)\<rparr>)
       = Some (zero_params\<lparr>rot4dXW := 5\<rparr>)
   \<and> map_option geometry (system_params (fst
         (onTransitionProgress example_page (\<lambda>i. 0) hero_config capabilities_config (1 / 2)
            (example_system, fresh_browser))))
       = map_option geometry (system_params (fst
         (onTransitionProgress example_page (\<lambda>i. 1 / 2) hero_config capabilities_config (1 / 2)
            (example_system\<lparr>visualizer :=
               Some (working_visualizer\<lparr>params := Some (zero_params\<lparr>rot4dXW := 5\<rparr>)\<rparr>)\<rparr>,
             fresh_browser))))
   \<and> \<not> (0.3 \<le> (1 / 5 :: real) \<and> (1 / 5 :: real) \<le> 0.7)
   \<and> fst (onTransitionProgress example_page (\<lambda>i. 0) hero_config capabilities_config (1 / 5)
            (example_system, fresh_browser))
       = example_system"
proof -
  let ?spun = "example_system\<lparr>visualizer :=
            Some (working_visualizer\<lparr>params := Some (zero_params\<lparr>rot4dXW := 5\<rparr>)\<rparr>)\<rparr>"
  note sp1 = example_system_params
  have sp2: "system_params ?spun = Some (zero_params\<lparr>rot4dXW := 5\<rparr>)"
    by (simp add: system_params_def)
  have inside: "(0.3 :: real) \<le> 1 / 2 \<and> (1 / 2 :: real) \<le> 0.7"
    by simp
  have outside: "\<not> (0.3 \<le> (1 / 5 :: real) \<and> (1 / 5 :: real) \<le> 0.7)"
    by simp
  obtain q1 q2 where
    "system_params (fst (onTransitionProgress example_page (\<lambda>i. 0) hero_config
        capabilities_config (1 / 2) (example_system, fresh_browser))) = Some q1"
    "system_params (fst (onTransitionProgress example_page (\<lambda>i. 1 / 2) hero_config
        capabilities_config (1 / 2) (?spun, fresh_browser))) = Some q2"
    "geometry q1 = geometry q2"
    using onTransitionProgress_frame_outputs[where p = "1 / 2" and doc = example_page
        and ?random1.0 = "\<lambda>i. 0" and ?random2.0 = "\<lambda>i. 1 / 2" and fromConfig = hero_config
        and toConfig = capabilities_config and ?sys1.0 = example_system and ?sys2.0 = ?spun
        and ?br1.0 = fresh_browser and ?br2.0 = fresh_browser
        and ?ps1.0 = zero_params and ?ps2.0 = "zero_params\<lparr>rot4dXW := 5\<rparr>"
        and n = 2 and i = 0 and q = "1 / 2"]
      inside sp1 sp2
    by blast
  moreover have "fst (onTransitionProgress example_page (\<lambda>i. 0) hero_config capabilities_config
       (1 / 5) (example_system, fresh_browser)) = example_system"
    using onTransitionProgress_frame_outputs[where p = "1 / 5" and doc = example_page
        and ?random1.0 = "\<lambda>i. 0" and fromConfig = hero_config
        and toConfig = capabilities_config and ?sys1.0 = example_system
        and ?br1.0 = fresh_browser and n = 2 and i = 0 and q = "1 / 2"
        and ?random2.0 = "\<lambda>i. 0" and ?sys2.0 = example_system and ?br2.0 = fresh_browser
        and ?ps1.0 = zero_params and ?ps2.0 = zero_params]
      outside
    by blast
  ultimately show ?thesis
    using sp1 sp2 by simp
qed

end
